theory Spec2Isabelle
  imports
    Complex_Main
    "HOL-Library.Char_ord"
    "HOL-Library.List_Lexorder"
    "HOL-Library.Monad_Syntax"
begin

section \<open>Constants and basic types\<close>

text \<open>
  The repository is a terminal Wordle written in Go. Three successive versions of its
  single program file are present in the sources: \<^verbatim>\<open>main.go\<close> (the first one: no
  statistics, no keyboard) and two later ones. Unless a name carries the suffix
  \<open>_main_go\<close>, a definition below embeds the latest version (the one with the keyboard,
  the daily puzzle and the two word lists).

  A Go \<^verbatim>\<open>string\<close> is a sequence of bytes; \<^typ>\<open>char\<close> is a byte, so a Go string is
  a \<^typ>\<open>string\<close>, \<^verbatim>\<open>len(s)\<close> is \<^term>\<open>length s\<close> and \<^verbatim>\<open>s[i]\<close> is
  \<^term>\<open>s ! i\<close> when \<^term>\<open>i < length s\<close> and a run-time panic otherwise. A panic
  ends the program; a function that can panic returns an \<open>option\<close>, with \<^term>\<open>None\<close>
  for the panic. A \<^verbatim>\<open>rune\<close> is a code point, an integer.
\<close>

type_synonym rune = int

definition TotalGuesses :: nat where
  "TotalGuesses = 6"

definition WordLength :: nat where
  "WordLength = 5"

definition KeyCodeWinBackspace :: rune where
  "KeyCodeWinBackspace = 8"

definition KeyCodeEnter :: rune where
  "KeyCodeEnter = 13"

definition KeyCodeMacBackspace :: rune where
  "KeyCodeMacBackspace = 127"

definition EmojiNotInWord :: rune where
  "EmojiNotInWord = 0x2B1B"

definition EmojiSomewhere :: rune where
  "EmojiSomewhere = 0x1F7E8"

definition EmojiLocated :: rune where
  "EmojiLocated = 0x1F7E9"

text \<open>
  \<^verbatim>\<open>type KeyHint byte\<close> with the four constants numbered by \<^verbatim>\<open>iota\<close>. The
  program compares hints with \<^verbatim>\<open>>\<close>, which compares these bytes; the order on
  \<open>KeyHint\<close> is that comparison.
\<close>

datatype KeyHint = KeyHintUnknown | KeyHintNotInWord | KeyHintSomewhere | KeyHintLocated

fun KeyHint_byte :: "KeyHint \<Rightarrow> nat" where
  "KeyHint_byte KeyHintUnknown = 0"
| "KeyHint_byte KeyHintNotInWord = 1"
| "KeyHint_byte KeyHintSomewhere = 2"
| "KeyHint_byte KeyHintLocated = 3"

instantiation KeyHint :: linorder
begin

definition less_eq_KeyHint :: "KeyHint \<Rightarrow> KeyHint \<Rightarrow> bool" where
  "less_eq_KeyHint a b \<longleftrightarrow> KeyHint_byte a \<le> KeyHint_byte b"

definition less_KeyHint :: "KeyHint \<Rightarrow> KeyHint \<Rightarrow> bool" where
  "less_KeyHint a b \<longleftrightarrow> KeyHint_byte a < KeyHint_byte b"

instance
proof
  fix a b c :: KeyHint
  show "a < b \<longleftrightarrow> a \<le> b \<and> \<not> b \<le> a"
    by (auto simp: less_eq_KeyHint_def less_KeyHint_def)
  show "a \<le> a"
    by (simp add: less_eq_KeyHint_def)
  show "a \<le> b \<Longrightarrow> b \<le> c \<Longrightarrow> a \<le> c"
    by (simp add: less_eq_KeyHint_def)
  show "a \<le> b \<Longrightarrow> b \<le> a \<Longrightarrow> a = b"
    by (cases a; cases b) (simp_all add: less_eq_KeyHint_def)
  show "a \<le> b \<or> b \<le> a"
    by (auto simp: less_eq_KeyHint_def)
qed

end

text \<open>
  The colouring functions of the terminal library (\<^verbatim>\<open>color.RedString\<close> and the
  others) and the strings they return are outside the repository. A slot of the rendered
  line is kept symbolically: which function coloured which byte, an uncoloured byte, the
  cursor, a blank, or the empty string a fresh \<^verbatim>\<open>make([]string, WordLength)\<close> holds.
\<close>

datatype ColorFunc = Sprintf | RedString | YellowString | GreenString

fun hintColorFns :: "KeyHint \<Rightarrow> ColorFunc" where
  "hintColorFns KeyHintUnknown = Sprintf"
| "hintColorFns KeyHintNotInWord = RedString"
| "hintColorFns KeyHintSomewhere = YellowString"
| "hintColorFns KeyHintLocated = GreenString"

datatype slot = Empty | Plain char | Colored ColorFunc char | Cursor | Blank

section \<open>Ranging over a string\<close>

text \<open>
  \<^verbatim>\<open>for i, r := range s\<close> does not visit every byte: it decodes UTF-8, yields the
  byte index at which each code point starts and the code point, and yields
  \<^verbatim>\<open>0xFFFD\<close> with width 1 at a byte that starts no valid encoding. \<open>decoderune\<close> is
  the run-time's decoder, applied to the rest of the string from a byte that is not ASCII.
\<close>

definition runeError :: rune where
  "runeError = 0xFFFD"

definition byteval :: "char \<Rightarrow> nat" where
  "byteval c = of_char c"

definition contb :: "char \<Rightarrow> bool" where
  "contb c \<longleftrightarrow> 0x80 \<le> byteval c \<and> byteval c \<le> 0xBF"

definition decoderune :: "string \<Rightarrow> rune \<times> nat" where
  "decoderune s =
     (let b0 = byteval (s ! 0) in
      if 0xC0 \<le> b0 \<and> b0 < 0xE0 then
        (if 1 < length s \<and> contb (s ! 1) then
           (let r = (b0 mod 32) * 64 + byteval (s ! 1) mod 64 in
            if 0x7F < r then (int r, 2) else (runeError, 1))
         else (runeError, 1))
      else if 0xE0 \<le> b0 \<and> b0 < 0xF0 then
        (if 2 < length s \<and> contb (s ! 1) \<and> contb (s ! 2) then
           (let r = (b0 mod 16) * 4096 + (byteval (s ! 1) mod 64) * 64 + byteval (s ! 2) mod 64 in
            if 0x7FF < r \<and> \<not> (0xD800 \<le> r \<and> r \<le> 0xDFFF) then (int r, 3) else (runeError, 1))
         else (runeError, 1))
      else if 0xF0 \<le> b0 \<and> b0 < 0xF8 then
        (if 3 < length s \<and> contb (s ! 1) \<and> contb (s ! 2) \<and> contb (s ! 3) then
           (let r = (b0 mod 8) * 262144 + (byteval (s ! 1) mod 64) * 4096
                    + (byteval (s ! 2) mod 64) * 64 + byteval (s ! 3) mod 64 in
            if 0xFFFF < r \<and> r \<le> 0x10FFFF then (int r, 4) else (runeError, 1))
         else (runeError, 1))
      else (runeError, 1))"

text \<open>
  \<open>rangeFrom skip i s\<close>: the pairs the loop yields on the bytes \<open>s\<close> that start at index
  \<open>i\<close>, of which the first \<open>skip\<close> belong to a code point already yielded.
\<close>

fun rangeFrom :: "nat \<Rightarrow> nat \<Rightarrow> string \<Rightarrow> (nat \<times> rune) list" where
  "rangeFrom skip i [] = []"
| "rangeFrom skip i (c # cs) =
     (if 0 < skip then rangeFrom (skip - 1) (Suc i) cs
      else if byteval c < 0x80 then (i, int (byteval c)) # rangeFrom 0 (Suc i) cs
      else (i, fst (decoderune (c # cs))) # rangeFrom (snd (decoderune (c # cs)) - 1) (Suc i) cs)"

definition rangeStr :: "string \<Rightarrow> (nat \<times> rune) list" where
  "rangeStr s = rangeFrom 0 0 s"

definition rangeIdx :: "string \<Rightarrow> nat list" where
  "rangeIdx s = map fst (rangeStr s)"

text \<open>\<^verbatim>\<open>byte(r)\<close> keeps the low eight bits of a rune, \<^verbatim>\<open>rune(b)\<close> is the byte's value.\<close>

definition byte_of_rune :: "rune \<Rightarrow> char" where
  "byte_of_rune r = char_of (r mod 256)"

definition rune_of_byte :: "char \<Rightarrow> rune" where
  "rune_of_byte c = int (byteval c)"

section \<open>Scoring a guess\<close>

text \<open>
  \<^verbatim>\<open>map[byte]int\<close>: the program only reads and writes single keys, and a read of a
  missing key gives 0, so the map is the function from keys to the value a read gives.
  The counts are at most the length of a word and never overflow.
\<close>

definition mapString :: "string \<Rightarrow> (char \<Rightarrow> int)" where
  "mapString str =
     foldl (\<lambda>m (i, r). m(byte_of_rune r := m (byte_of_rune r) + 1)) (\<lambda>_. 0) (rangeStr str)"

text \<open>
  The global variables of the program (the latest version). \<open>keyboard\<close> is a
  \<^verbatim>\<open>map[rune]KeyHint\<close>, read with the zero value \<open>KeyHintUnknown\<close> for a missing key.
  An entry of \<open>emojiStack\<close> is a string of emoji, kept as its code points.
\<close>

record Globals =
  word :: string
  wordList :: "string list"
  allowedWords :: "string list"
  currentGuess :: nat
  discovered :: "bool list"
  keyboard :: "rune \<Rightarrow> KeyHint"
  emojiStack :: "rune list list"
  dayOffset :: int

definition initKeyboard :: "Globals \<Rightarrow> Globals" where
  "initKeyboard g = g\<lparr>keyboard := (\<lambda>_. KeyHintUnknown)\<rparr>"

definition setKeyHint :: "rune \<Rightarrow> KeyHint \<Rightarrow> Globals \<Rightarrow> Globals" where
  "setKeyHint r hint g =
     (let existing = keyboard g r in
      if hint > existing then g\<lparr>keyboard := (keyboard g)(r := hint)\<rparr> else g)"

text \<open>The first loop of \<open>formatGuess\<close>: "map and remove correct guesses".\<close>

fun formatGuess_correct :: "string \<Rightarrow> string \<Rightarrow> nat list \<Rightarrow> (char \<Rightarrow> int) \<Rightarrow> (char \<Rightarrow> int) option" where
  "formatGuess_correct guess w [] m = Some m"
| "formatGuess_correct guess w (i # is) m =
     (if i < length guess \<and> i < length w then
        formatGuess_correct guess w is
          (if guess ! i = w ! i then m(w ! i := m (w ! i) - 1) else m)
      else None)"

text \<open>
  The local variables of \<open>formatGuess\<close> that its second loop changes, and the body of that
  loop at index \<open>i\<close>. Every indexing is guarded as Go guards it.
\<close>

record Locals =
  counts :: "char \<Rightarrow> int"
  slots :: "slot list"
  emoji :: "rune list"

definition formatGuess_slot :: "string \<Rightarrow> bool \<Rightarrow> nat \<Rightarrow> Locals \<times> Globals \<Rightarrow> (Locals \<times> Globals) option" where
  "formatGuess_slot guess clr i = (\<lambda>(l, g).
     if clr then
       (if \<not> (i < length guess \<and> i < length (word g)) then None
        else if guess ! i = word g ! i then
          (if \<not> (i < length (discovered g) \<and> i < length (slots l)) then None
           else Some (l\<lparr>slots := (slots l)[i := Colored GreenString (guess ! i)],
                        emoji := emoji l @ [EmojiLocated]\<rparr>,
                      setKeyHint (rune_of_byte (guess ! i)) KeyHintLocated
                        (g\<lparr>discovered := (discovered g)[i := True]\<rparr>)))
        else if counts l (guess ! i) > 0 then
          (if \<not> i < length (slots l) then None
           else Some (l\<lparr>counts := (counts l)(guess ! i := counts l (guess ! i) - 1),
                        slots := (slots l)[i := Colored YellowString (guess ! i)],
                        emoji := emoji l @ [EmojiSomewhere]\<rparr>,
                      setKeyHint (rune_of_byte (guess ! i)) KeyHintSomewhere g))
        else
          (if \<not> i < length (slots l) then None
           else Some (l\<lparr>slots := (slots l)[i := Colored RedString (guess ! i)],
                        emoji := emoji l @ [EmojiNotInWord]\<rparr>,
                      setKeyHint (rune_of_byte (guess ! i)) KeyHintNotInWord g)))
     else
       (if \<not> (i < length guess \<and> i < length (slots l)) then None
        else Some (l\<lparr>slots := (slots l)[i := Plain (guess ! i)]\<rparr>, g)))"

fun formatGuess_slots :: "string \<Rightarrow> bool \<Rightarrow> nat list \<Rightarrow> Locals \<times> Globals \<Rightarrow> (Locals \<times> Globals) option" where
  "formatGuess_slots guess clr [] lg = Some lg"
| "formatGuess_slots guess clr (i # is) lg =
     (case formatGuess_slot guess clr i lg of
        None \<Rightarrow> None
      | Some lg' \<Rightarrow> formatGuess_slots guess clr is lg')"

text \<open>"add cursor and blanks": the indices from \<open>len(guess)\<close> up to \<open>WordLength\<close>.\<close>

fun formatGuess_blanks :: "nat list \<Rightarrow> bool \<Rightarrow> slot list \<Rightarrow> slot list option" where
  "formatGuess_blanks [] first sl = Some sl"
| "formatGuess_blanks (i # is) first sl =
     (if \<not> i < length sl then None
      else formatGuess_blanks is False (sl[i := (if first then Cursor else Blank)]))"

text \<open>
  \<open>formatGuess\<close> returns the line to print, here its slots (the line is five spaces and
  the slots joined by spaces), and the globals as it leaves them.
\<close>

definition formatGuess :: "string \<Rightarrow> bool \<Rightarrow> Globals \<Rightarrow> (slot list \<times> Globals) option" where
  "formatGuess guess clr g =
     (case formatGuess_correct guess (word g) (rangeIdx guess) (mapString (word g)) of
        None \<Rightarrow> None
      | Some m \<Rightarrow>
         (case formatGuess_slots guess clr (rangeIdx guess)
                 (\<lparr>counts = m, slots = replicate WordLength Empty, emoji = []\<rparr>, g) of
            None \<Rightarrow> None
          | Some (l, g') \<Rightarrow>
             (case formatGuess_blanks [length guess..<WordLength] True (slots l) of
                None \<Rightarrow> None
              | Some sl \<Rightarrow>
                 Some (sl, if clr then g'\<lparr>emojiStack := emojiStack g' @ [emoji l]\<rparr> else g'))))"


subsection \<open>The first version of the program (main.go)\<close>

text \<open>
  In \<^verbatim>\<open>main.go\<close> the function has the same two loops, with two differences: it
  returns at once on the empty string, and it is the first loop, which runs whether or
  not \<open>clr\<close> is set, that writes \<open>discovered\<close>. It reads the global \<open>word\<close> and
  writes the global \<open>discovered\<close>, which are passed and returned here.
\<close>

fun formatGuess_correct_main_go ::
  "string \<Rightarrow> string \<Rightarrow> nat list \<Rightarrow> (char \<Rightarrow> int) \<times> bool list \<Rightarrow> ((char \<Rightarrow> int) \<times> bool list) option" where
  "formatGuess_correct_main_go guess w [] md = Some md"
| "formatGuess_correct_main_go guess w (i # is) (m, d) =
     (if \<not> (i < length guess \<and> i < length w) then None
      else if guess ! i = w ! i then
        (if \<not> i < length d then None
         else formatGuess_correct_main_go guess w is (m(w ! i := m (w ! i) - 1), d[i := True]))
      else formatGuess_correct_main_go guess w is (m, d))"

fun formatGuess_slots_main_go ::
  "string \<Rightarrow> string \<Rightarrow> bool \<Rightarrow> nat list \<Rightarrow> (char \<Rightarrow> int) \<times> slot list \<Rightarrow> ((char \<Rightarrow> int) \<times> slot list) option" where
  "formatGuess_slots_main_go guess w clr [] ms = Some ms"
| "formatGuess_slots_main_go guess w clr (i # is) (m, sl) =
     (if clr then
        (if \<not> (i < length guess \<and> i < length w \<and> i < length sl) then None
         else if guess ! i = w ! i then
           formatGuess_slots_main_go guess w clr is (m, sl[i := Colored GreenString (guess ! i)])
         else if m (guess ! i) > 0 then
           formatGuess_slots_main_go guess w clr is
             (m(guess ! i := m (guess ! i) - 1), sl[i := Colored YellowString (guess ! i)])
         else
           formatGuess_slots_main_go guess w clr is (m, sl[i := Colored RedString (guess ! i)]))
      else
        (if \<not> (i < length guess \<and> i < length sl) then None
         else formatGuess_slots_main_go guess w clr is (m, sl[i := Plain (guess ! i)])))"

definition formatGuess_main_go :: "string \<Rightarrow> string \<Rightarrow> bool \<Rightarrow> bool list \<Rightarrow> (slot list \<times> bool list) option" where
  "formatGuess_main_go w guess clr d =
     (if guess = [] then Some ([Cursor, Blank, Blank, Blank, Blank], d)
      else
        (case formatGuess_correct_main_go guess w (rangeIdx guess) (mapString w, d) of
           None \<Rightarrow> None
         | Some (m, d') \<Rightarrow>
            (case formatGuess_slots_main_go guess w clr (rangeIdx guess)
                    (m, replicate WordLength Empty) of
               None \<Rightarrow> None
             | Some (m', sl) \<Rightarrow>
                (case formatGuess_blanks [length guess..<WordLength] True sl of
                   None \<Rightarrow> None
                 | Some sl' \<Rightarrow> Some (sl', d')))))"

section \<open>Hard mode\<close>

text \<open>
  \<open>hardModeEnforcement\<close> is the same function in every version: a loop over the indices
  of \<open>word\<close> that returns \<open>false\<close> at the first discovered position where the guess
  differs, and \<open>true\<close> after the loop. It returns a \<open>bool\<close> and nothing else.
\<close>

fun hardModeEnforcement_loop :: "string \<Rightarrow> string \<Rightarrow> bool list \<Rightarrow> nat list \<Rightarrow> bool option" where
  "hardModeEnforcement_loop guess w d [] = Some True"
| "hardModeEnforcement_loop guess w d (i # is) =
     (if \<not> i < length d then None
      else if d ! i then
        (if \<not> (i < length guess \<and> i < length w) then None
         else if guess ! i \<noteq> w ! i then Some False
         else hardModeEnforcement_loop guess w d is)
      else hardModeEnforcement_loop guess w d is)"

definition hardModeEnforcement :: "string \<Rightarrow> Globals \<Rightarrow> bool option" where
  "hardModeEnforcement guess g =
     hardModeEnforcement_loop guess (word g) (discovered g) (rangeIdx (word g))"

definition hardModeEnforcement_main_go :: "string \<Rightarrow> bool list \<Rightarrow> string \<Rightarrow> bool option" where
  "hardModeEnforcement_main_go w d guess =
     hardModeEnforcement_loop guess w d (rangeIdx w)"

section \<open>Word lists\<close>

text \<open>
  \<^verbatim>\<open>sort.SearchStrings(a, x)\<close> is the standard library's binary search
  \<^verbatim>\<open>sort.Search(len(a), func(i int) bool { return a[i] >= x })\<close>: with \<open>i, j := 0, n\<close>,
  while \<open>i < j\<close> it takes \<open>h\<close> in the middle and continues in \<open>[h+1, j)\<close> when
  \<open>f(h)\<close> is false and in \<open>[i, h)\<close> otherwise; it returns \<open>i\<close>. Go compares strings
  byte by byte, a proper prefix being smaller: the lexicographic order on \<^typ>\<open>string\<close>
  over the order of bytes. The list lengths are far from the range where \<open>i + j\<close> wraps.
\<close>

function Search_loop :: "(nat \<Rightarrow> bool) \<Rightarrow> nat \<Rightarrow> nat \<Rightarrow> nat" where
  "Search_loop f i j =
     (if i < j then
        (let h = (i + j) div 2 in
         if \<not> f h then Search_loop f (h + 1) j else Search_loop f i h)
      else i)"
  by pat_completeness auto
termination
  by (relation "measure (\<lambda>(f, i, j). j - i)") auto

declare Search_loop.simps [simp del]

definition Search :: "nat \<Rightarrow> (nat \<Rightarrow> bool) \<Rightarrow> nat" where
  "Search n f = Search_loop f 0 n"

definition SearchStrings :: "string list \<Rightarrow> string \<Rightarrow> nat" where
  "SearchStrings a x = Search (length a) (\<lambda>i. a ! i \<ge> x)"

definition isWord :: "string \<Rightarrow> Globals \<Rightarrow> bool" where
  "isWord str g =
     (let index = SearchStrings (wordList g) str;
          found = index < length (wordList g) \<and> wordList g ! index = str
      in if found then True
         else (let index = SearchStrings (allowedWords g) str
               in index < length (allowedWords g) \<and> allowedWords g ! index = str))"

definition isWord_main_go :: "string list \<Rightarrow> string \<Rightarrow> bool" where
  "isWord_main_go wl str =
     (let index = SearchStrings wl str in index < length wl \<and> wl ! index = str)"

text \<open>
  The two embedded files \<^verbatim>\<open>good_words.txt\<close> and \<^verbatim>\<open>bad_words.txt\<close> are not in the
  sources. \<open>parseWordLists\<close> scans each into its lines; the lines are the parameters
  here. \<open>main\<close> picks the word from \<open>wordList\<close> in file order and only then sorts
  \<open>wordList\<close> (\<open>sortWordList\<close>); nothing sorts \<open>allowedWords\<close>.
\<close>

definition parseWordLists :: "string list \<Rightarrow> string list \<Rightarrow> Globals \<Rightarrow> Globals" where
  "parseWordLists good bad g = g\<lparr>wordList := good, allowedWords := bad\<rparr>"

definition sortWordList :: "Globals \<Rightarrow> Globals" where
  "sortWordList g = g\<lparr>wordList := sort (wordList g)\<rparr>"


section \<open>Statistics\<close>

text \<open>
  Go's \<^verbatim>\<open>int\<close> is a 64-bit two's-complement integer; \<open>int64\<close> wraps a mathematical
  integer into its range, and \<^verbatim>\<open>x++\<close> is \<open>int64 (x + 1)\<close>. \<open>LastDaily\<close> is a
  \<^verbatim>\<open>*time.Time\<close>: \<open>None\<close> for \<^verbatim>\<open>nil\<close>, otherwise an instant, in nanoseconds.
\<close>

definition int64 :: "int \<Rightarrow> int" where
  "int64 x = (x + 2 ^ 63) mod 2 ^ 64 - 2 ^ 63"

record GameStats =
  TotalGames :: int
  TotalHardGames :: int
  Wins :: "int list"
  HardWins :: "int list"
  Streak :: int
  BestStreak :: int
  LastDaily :: "int option"
  ExperimentalEmojiSupport :: bool

text \<open>
  The best streak is computed as
  \<^verbatim>\<open>int(math.Max(float64(gs.BestStreak), float64(gs.Streak)))\<close>. The value of
  \<^verbatim>\<open>float64(x)\<close> for an integer \<open>x\<close> is \<open>x\<close> rounded to 53 significant bits, to
  nearest and to even on a tie; that value is again an integer, and \<open>float64\<close> below
  returns it. On such values \<^verbatim>\<open>math.Max\<close> is the maximum. Converting back, a value
  outside the range of \<^verbatim>\<open>int\<close> (only \<open>2 ^ 63\<close> can occur) gives what the amd64
  conversion instruction gives, \<open>- 2 ^ 63\<close>.
\<close>

fun bitlen :: "nat \<Rightarrow> nat" where
  "bitlen n = (if n = 0 then 0 else Suc (bitlen (n div 2)))"

definition roundToEven :: "nat \<Rightarrow> nat \<Rightarrow> nat" where
  "roundToEven a e =
     (let q = a div 2 ^ e; r = a mod 2 ^ e; half = 2 ^ e div 2
      in (if r < half \<or> (r = half \<and> even q) then q else q + 1) * 2 ^ e)"

definition float64 :: "int \<Rightarrow> int" where
  "float64 x =
     (let a = nat \<bar>x\<bar>; n = bitlen a
      in if n \<le> 53 then x else sgn x * int (roundToEven a (n - 53)))"

definition int_of_float64 :: "int \<Rightarrow> int" where
  "int_of_float64 f = (if - (2 ^ 63) \<le> f \<and> f < 2 ^ 63 then f else - (2 ^ 63))"

text \<open>The record \<open>loadGameStats\<close> starts from: two histograms of \<open>TotalGuesses\<close> zeros,
  every other field the zero value of its type.\<close>

definition newGameStats :: GameStats where
  "newGameStats =
     \<lparr>TotalGames = 0, TotalHardGames = 0,
      Wins = replicate TotalGuesses 0, HardWins = replicate TotalGuesses 0,
      Streak = 0, BestStreak = 0, LastDaily = None, ExperimentalEmojiSupport = False\<rparr>"

text \<open>
  What \<open>loadGameStats\<close> sees of the machine: the result of \<^verbatim>\<open>os.UserHomeDir\<close>
  (\<open>None\<close> for an error) and the files that can be read, by path. \<^verbatim>\<open>path.Join\<close> and
  the JSON decoder belong to the standard library and are parameters. The decoder is given
  the bytes and the pointer \<open>gamestats\<close> (by reference, so it may change what it points
  to, or make it \<^verbatim>\<open>nil\<close>, here \<open>None\<close>), and reports whether it returned an error.
\<close>

record Env =
  homeDir :: "string option"
  files :: "string \<Rightarrow> string option"

type_synonym Decoder = "string \<Rightarrow> GameStats option \<Rightarrow> GameStats option \<times> bool"

definition loadGameStats :: "(string \<Rightarrow> string \<Rightarrow> string) \<Rightarrow> Decoder \<Rightarrow> Env \<Rightarrow> GameStats option \<times> Env" where
  "loadGameStats join decode env =
     (let gamestats = Some newGameStats in
      case homeDir env of
        None \<Rightarrow> (gamestats, env)
      | Some home \<Rightarrow>
         (let savePath = join home ''.wordle'' in
          case files env savePath of
            None \<Rightarrow> (gamestats, env)
          | Some raw \<Rightarrow>
             (let (gamestats', err) = decode raw gamestats in
              if err then (gamestats', env\<lparr>files := (files env)(savePath := None)\<rparr>)
              else (gamestats', env))))"

section \<open>The daily word\<close>

text \<open>
  \<open>main\<close> computes
  \<^verbatim>\<open>dayOffset = int(time.Since(time.Date(2021, time.June, 19, 0, 0, 0, 0, time.UTC)).Hours() / 24)\<close>
  and, for the daily puzzle, takes \<^verbatim>\<open>wordList[dayOffset % len(wordList)]\<close>. The
  reading of the clock is a parameter: an instant is a number of nanoseconds since
  1970-01-01 00:00 UTC (Go's clock has no leap seconds), and \<open>anchor\<close> is the instant
  \<^verbatim>\<open>time.Date\<close> returns for 19 June 2021, 00:00 UTC. \<open>Since now t\<close> is the
  \<^verbatim>\<open>Duration\<close> from \<open>t\<close> to the reading \<open>now\<close>, an \<^verbatim>\<open>int64\<close> of nanoseconds
  that saturates at the ends of its range.

  \<^verbatim>\<open>Duration.Hours\<close> is the standard library's
  \<^verbatim>\<open>hour := d / Hour; nsec := d % Hour; return float64(hour) + float64(nsec)/(60*60*1e9)\<close>,
  with Go's integer division, which truncates towards zero. Its result, and the quotient
  by 24, are \<^verbatim>\<open>float64\<close> values: each operation returns the exact result rounded
  to 53 significant bits, to nearest and to even on a tie. \<open>fl64\<close> is that rounding,
  for zero and for magnitudes in the normal range of the format, which every value here
  is in; \<open>ilog2 x\<close> is the exponent of the binade of a positive \<open>x\<close>. The conversion
  \<^verbatim>\<open>int(f)\<close> discards the fraction.
\<close>

definition pow2 :: "int \<Rightarrow> real" where
  "pow2 e = (if 0 \<le> e then 2 ^ nat e else 1 / 2 ^ nat (- e))"

definition ilog2 :: "real \<Rightarrow> int" where
  "ilog2 x =
     (if 1 \<le> x then int (bitlen (nat \<lfloor>x\<rfloor>)) - 1
      else - int (bitlen (nat (\<lceil>1 / x\<rceil> - 1))))"

definition roundHalfEven :: "real \<Rightarrow> int" where
  "roundHalfEven x =
     (let f = \<lfloor>x\<rfloor>; r = x - of_int f
      in if r < 1 / 2 \<or> (r = 1 / 2 \<and> even f) then f else f + 1)"

definition fl64 :: "real \<Rightarrow> real" where
  "fl64 x =
     (if x = 0 then 0
      else (let e = ilog2 \<bar>x\<bar> - 52 in of_int (roundHalfEven (x / pow2 e)) * pow2 e))"

definition quot :: "int \<Rightarrow> int \<Rightarrow> int" where
  "quot a b = sgn a * sgn b * (\<bar>a\<bar> div \<bar>b\<bar>)"

definition rem :: "int \<Rightarrow> int \<Rightarrow> int" where
  "rem a b = a - b * quot a b"

definition Hour :: int where
  "Hour = 3600000000000"

definition Hours :: "int \<Rightarrow> real" where
  "Hours d =
     (let hour = quot d Hour; nsec = rem d Hour
      in fl64 (of_int (float64 hour) + fl64 (of_int (float64 nsec) / 3600000000000)))"

definition int_of_float :: "real \<Rightarrow> int" where
  "int_of_float x = int_of_float64 (if 0 \<le> x then \<lfloor>x\<rfloor> else \<lceil>x\<rceil>)"

definition anchor :: int where
  "anchor = 1624060800000000000"

definition Since :: "int \<Rightarrow> int \<Rightarrow> int" where
  "Since now t =
     (let d = now - t
      in if d < - (2 ^ 63) then - (2 ^ 63) else if 2 ^ 63 - 1 < d then 2 ^ 63 - 1 else d)"

definition dayOffsetAt :: "int \<Rightarrow> int" where
  "dayOffsetAt now = int_of_float (fl64 (Hours (Since now anchor) / 24))"

text \<open>
  The word of the daily puzzle for a day offset. \<^verbatim>\<open>%\<close> panics on an empty list and
  has the sign of the offset; indexing panics on a negative index.
\<close>

definition dailyWord :: "string list \<Rightarrow> int \<Rightarrow> string option" where
  "dailyWord wl off =
     (if length wl = 0 then None
      else (let index = rem off (int (length wl))
            in if index < 0 then None else Some (wl ! nat index)))"

definition pickDaily :: "string list \<Rightarrow> int \<Rightarrow> string option" where
  "pickDaily wl now = dailyWord wl (dayOffsetAt now)"

section \<open>The session\<close>

text \<open>
  The state of \<open>main\<close> once the word is chosen: the globals, the flag \<open>args.HardMode\<close>,
  the statistics, the local variables \<open>guess\<close> and \<open>win\<close>, and the records handed to
  \<open>gamestats.save()\<close> so far, oldest first (the error \<open>save\<close> may return only selects
  a message). What is written to the terminal does not feed back into the state and is
  left out; \<open>formatGuess\<close> is still run for its effects wherever the program calls it.

  One turn of the main loop ends in \<^verbatim>\<open>continue\<close>, in \<^verbatim>\<open>break\<close>, or by reaching the
  end of the loop body (\<open>Next\<close>).
\<close>

record Session =
  glob :: Globals
  HardMode :: bool
  gamestats :: GameStats
  guess :: string
  win :: bool
  saved :: "GameStats list"

datatype Flow = Next | Continue | Break

definition save :: "Session \<Rightarrow> Session" where
  "save s = s\<lparr>saved := saved s @ [gamestats s]\<rparr>"

text \<open>"just submitted the first guess, this game officially counts"\<close>

definition countGame :: "Session \<Rightarrow> Session" where
  "countGame s =
     save (if HardMode s
           then s\<lparr>gamestats := (gamestats s)\<lparr>TotalHardGames := int64 (TotalHardGames (gamestats s) + 1)\<rparr>\<rparr>
           else s\<lparr>gamestats := (gamestats s)\<lparr>TotalGames := int64 (TotalGames (gamestats s) + 1)\<rparr>\<rparr>)"

text \<open>A line is redrawn without colours: \<open>formatGuess(guess, false)\<close>, its result printed.\<close>

definition redraw :: "Flow \<Rightarrow> Session \<Rightarrow> (Flow \<times> Session) option" where
  "redraw fl s =
     (case formatGuess (guess s) False (glob s) of
        None \<Rightarrow> None
      | Some (line, g) \<Rightarrow> Some (fl, s\<lparr>glob := g\<rparr>))"

text \<open>The body of "input was enter and the guess is filled", from "show hints" on.\<close>

definition enter_accepted :: "Session \<Rightarrow> (Flow \<times> Session) option" where
  "enter_accepted s =
     (case formatGuess (guess s) True (glob s) of
        None \<Rightarrow> None
      | Some (line, g) \<Rightarrow>
         (let s1 = s\<lparr>glob := g\<rparr>;
              s2 = (if currentGuess (glob s1) = 0 then countGame s1 else s1)
          in if guess s2 = word (glob s2) then Some (Break, s2\<lparr>win := True\<rparr>)
             else
               (let s3 = s2\<lparr>glob := (glob s2)\<lparr>currentGuess := currentGuess (glob s2) + 1\<rparr>,
                           guess := []\<rparr>
                in if currentGuess (glob s3) = TotalGuesses then Some (Break, s3)
                   else redraw Next s3)))"

definition enter :: "Session \<Rightarrow> (Flow \<times> Session) option" where
  "enter s =
     (if \<not> isWord (guess s) (glob s) then redraw Continue s
      else
        (case (if HardMode s then hardModeEnforcement (guess s) (glob s) else Some True) of
           None \<Rightarrow> None
         | Some ok \<Rightarrow> if \<not> ok then redraw Continue s else enter_accepted s))"

text \<open>
  The whole loop body. \<^verbatim>\<open>unicode.ToUpper\<close>, \<^verbatim>\<open>unicode.IsLetter\<close> and the
  conversion \<^verbatim>\<open>string(pressed)\<close> (the UTF-8 encoding of a rune) are the library's.
\<close>

record Unicode =
  ToUpper :: "rune \<Rightarrow> rune"
  IsLetter :: "rune \<Rightarrow> bool"
  EncodeRune :: "rune \<Rightarrow> string"

definition typeLetter :: "Unicode \<Rightarrow> rune \<Rightarrow> Session \<Rightarrow> (Flow \<times> Session) option" where
  "typeLetter u pressed s =
     (if length (guess s) < WordLength \<and> IsLetter u pressed
      then redraw Next (s\<lparr>guess := guess s @ EncodeRune u pressed\<rparr>)
      else Some (Next, s))"

definition keypress :: "Unicode \<Rightarrow> rune \<Rightarrow> Session \<Rightarrow> (Flow \<times> Session) option" where
  "keypress u key s =
     (let pressed = ToUpper u key in
      if (pressed = KeyCodeMacBackspace \<or> pressed = KeyCodeWinBackspace) \<and> length (guess s) \<noteq> 0
      then redraw Continue (s\<lparr>guess := butlast (guess s)\<rparr>)
      else if pressed = KeyCodeEnter \<and> length (guess s) = WordLength then
        (case enter s of
           None \<Rightarrow> None
         | Some (Next, s') \<Rightarrow> typeLetter u pressed s'
         | Some (fl, s') \<Rightarrow> Some (fl, s'))
      else typeLetter u pressed s)"

text \<open>The loop on a sequence of keys: it stops reading at a \<^verbatim>\<open>break\<close>.\<close>

fun mainLoop :: "Unicode \<Rightarrow> rune list \<Rightarrow> Session \<Rightarrow> (Flow \<times> Session) option" where
  "mainLoop u [] s = Some (Next, s)"
| "mainLoop u (k # ks) s =
     (case keypress u k s of
        None \<Rightarrow> None
      | Some (Break, s') \<Rightarrow> Some (Break, s')
      | Some (fl, s') \<Rightarrow> mainLoop u ks s')"

text \<open>
  Submitting a guess is pressing Enter with the guess in the buffer; a session submitting
  a sequence of guesses runs the Enter branch on each in turn, until the loop is left.
\<close>

definition submit :: "string \<Rightarrow> Session \<Rightarrow> (Flow \<times> Session) option" where
  "submit w s = enter (s\<lparr>guess := w\<rparr>)"


text \<open>After the loop: "indicate win or lose, update/save/print stats".\<close>

definition bump :: "int list \<Rightarrow> nat \<Rightarrow> int list option" where
  "bump h i = (if i < length h then Some (h[i := int64 (h ! i + 1)]) else None)"

definition finish :: "Session \<Rightarrow> Session option" where
  "finish s =
     (if win s then
        (case (if HardMode s
               then map_option (\<lambda>h. (gamestats s)\<lparr>HardWins := h\<rparr>)
                      (bump (HardWins (gamestats s)) (currentGuess (glob s)))
               else map_option (\<lambda>h. (gamestats s)\<lparr>Wins := h\<rparr>)
                      (bump (Wins (gamestats s)) (currentGuess (glob s)))) of
           None \<Rightarrow> None
         | Some gs \<Rightarrow>
            (let gs1 = gs\<lparr>Streak := int64 (Streak gs + 1)\<rparr>;
                 gs2 = gs1\<lparr>BestStreak :=
                         int_of_float64 (max (float64 (BestStreak gs1)) (float64 (Streak gs1)))\<rparr>
             in Some (save (s\<lparr>gamestats := gs2\<rparr>))))
      else Some (save (s\<lparr>gamestats := (gamestats s)\<lparr>Streak := 0\<rparr>\<rparr>)))"

text \<open>
  The interrupt handler, taken as one step between two turns of the loop; the process
  exits after it.
\<close>

definition interrupt :: "Session \<Rightarrow> Session" where
  "interrupt s =
     (if \<not> win s \<and> currentGuess (glob s) \<noteq> 0
      then save (s\<lparr>gamestats := (gamestats s)\<lparr>Streak := 0\<rparr>\<rparr>)
      else s)"

subsection \<open>The Enter branch of the first version (main.go)\<close>

record Session_main_go =
  word_mg :: string
  wordList_mg :: "string list"
  currentGuess_mg :: nat
  discovered_mg :: "bool list"
  hardMode_mg :: bool
  guess_mg :: string
  win_mg :: bool

definition redraw_main_go :: "Flow \<Rightarrow> Session_main_go \<Rightarrow> (Flow \<times> Session_main_go) option" where
  "redraw_main_go fl s =
     (case formatGuess_main_go (word_mg s) (guess_mg s) False (discovered_mg s) of
        None \<Rightarrow> None
      | Some (line, d) \<Rightarrow> Some (fl, s\<lparr>discovered_mg := d\<rparr>))"

definition enter_main_go :: "Session_main_go \<Rightarrow> (Flow \<times> Session_main_go) option" where
  "enter_main_go s =
     (if isWord_main_go (wordList_mg s) (guess_mg s) then
        (case (if hardMode_mg s
               then hardModeEnforcement_main_go (word_mg s) (discovered_mg s) (guess_mg s)
               else Some True) of
           None \<Rightarrow> None
         | Some ok \<Rightarrow>
            if \<not> ok then redraw_main_go Continue s
            else
              (case formatGuess_main_go (word_mg s) (guess_mg s) True (discovered_mg s) of
                 None \<Rightarrow> None
               | Some (line, d) \<Rightarrow>
                  (let s1 = s\<lparr>discovered_mg := d\<rparr>
                   in if guess_mg s1 = word_mg s1 then Some (Break, s1\<lparr>win_mg := True\<rparr>)
                      else
                        (let s2 = s1\<lparr>currentGuess_mg := currentGuess_mg s1 + 1, guess_mg := []\<rparr>
                         in if currentGuess_mg s2 = TotalGuesses then Some (Break, s2)
                            else redraw_main_go Next s2))))
      else redraw_main_go Next s)"

section \<open>The properties, in the words of the specification\<close>

text \<open>
  A word of the game is made of ASCII letters; on an ASCII string the \<^verbatim>\<open>range\<close> loop
  visits every index.
\<close>

definition ascii :: "string \<Rightarrow> bool" where
  "ascii s \<longleftrightarrow> list_all (\<lambda>c. byteval c < 0x80) s"

text \<open>
  The scoring rule, stated position by position. Among the first \<open>k\<close> positions,
  \<open>exact\<close> counts those where guess and target both hold the letter \<open>c\<close>, and
  \<open>misplaced\<close> those where the guess holds \<open>c\<close> and the target another letter. The
  \<open>credits\<close> of \<open>c\<close> are its occurrences in the target that no exact match of the whole
  guess uses. A position that is not an exact match is Somewhere while the misplaced
  occurrences of its letter before it have not used up the credits.
\<close>

definition exact :: "string \<Rightarrow> string \<Rightarrow> nat \<Rightarrow> char \<Rightarrow> nat" where
  "exact gu w k c = length (filter (\<lambda>i. gu ! i = c \<and> w ! i = c) [0..<k])"

definition misplaced :: "string \<Rightarrow> string \<Rightarrow> nat \<Rightarrow> char \<Rightarrow> nat" where
  "misplaced gu w k c = length (filter (\<lambda>i. gu ! i = c \<and> w ! i \<noteq> c) [0..<k])"

definition credits :: "string \<Rightarrow> string \<Rightarrow> char \<Rightarrow> nat" where
  "credits gu w c = count_list w c - exact gu w (length gu) c"

definition hintAt :: "string \<Rightarrow> string \<Rightarrow> nat \<Rightarrow> KeyHint" where
  "hintAt gu w i =
     (if gu ! i = w ! i then KeyHintLocated
      else if misplaced gu w i (gu ! i) < credits gu w (gu ! i) then KeyHintSomewhere
      else KeyHintNotInWord)"

definition evaluate :: "string \<Rightarrow> string \<Rightarrow> KeyHint list" where
  "evaluate gu w = map (hintAt gu w) [0..<length gu]"

text \<open>The emoji the program appends for a hint, and the slot it writes.\<close>

fun hintEmoji :: "KeyHint \<Rightarrow> rune" where
  "hintEmoji KeyHintUnknown = 0"
| "hintEmoji KeyHintNotInWord = EmojiNotInWord"
| "hintEmoji KeyHintSomewhere = EmojiSomewhere"
| "hintEmoji KeyHintLocated = EmojiLocated"

definition hintSlots :: "string \<Rightarrow> KeyHint list \<Rightarrow> slot list" where
  "hintSlots gu hs = map (\<lambda>(c, h). Colored (hintColorFns h) c) (zip gu hs)"

text \<open>The positions a hard-mode report would name: discovered, and differing from the word.\<close>

definition violations :: "string \<Rightarrow> Globals \<Rightarrow> nat list" where
  "violations gu g =
     filter (\<lambda>i. discovered g ! i \<and> gu ! i \<noteq> word g ! i) [0..<WordLength]"

text \<open>A guess the Enter branch accepts in the state \<open>s\<close>.\<close>

definition accepted :: "string \<Rightarrow> Session \<Rightarrow> bool" where
  "accepted w s \<longleftrightarrow>
     isWord w (glob s) \<and> (HardMode s \<longrightarrow> hardModeEnforcement w (glob s) = Some True)"


text \<open>
  The globals as the program has them when the first key is read, for a chosen word and
  the two word lists.
\<close>

definition startGlobals :: "string \<Rightarrow> string list \<Rightarrow> string list \<Rightarrow> Globals" where
  "startGlobals w good bad =
     \<lparr>word = w, wordList = good, allowedWords = bad, currentGuess = 0,
      discovered = replicate WordLength False, keyboard = (\<lambda>_. KeyHintUnknown),
      emojiStack = [], dayOffset = 0\<rparr>"

text \<open>
  \<open>marked e c gu row\<close>: the number of positions of the guess \<open>gu\<close> that hold the letter
  \<open>c\<close> and that the emoji row marks with \<open>e\<close>.
\<close>

definition marked :: "rune \<Rightarrow> char \<Rightarrow> string \<Rightarrow> rune list \<Rightarrow> nat" where
  "marked e c gu row = length (filter (\<lambda>i. gu ! i = c \<and> row ! i = e) [0..<length gu])"

text \<open>
  The calendar day of an instant, in UTC: whole days since 1970-01-01. The anchor is a
  midnight, so the days since the anchor are this number less the anchor's.
\<close>

definition utcDay :: "int \<Rightarrow> int" where
  "utcDay now = now div 86400000000000"


text \<open>A sequence of recorded hints, each a letter and a hint, set one after the other.\<close>

definition setKeyHints :: "(rune \<times> KeyHint) list \<Rightarrow> Globals \<Rightarrow> Globals" where
  "setKeyHints hs g = fold (\<lambda>(r, h). setKeyHint r h) hs g"



text \<open>The word and the mask of discovered positions have the length of a word.\<close>

definition wellFormed :: "Session \<Rightarrow> bool" where
  "wellFormed s \<longleftrightarrow>
     length (word (glob s)) = WordLength \<and> length (discovered (glob s)) = WordLength"

text \<open>
  The histogram of the mode being played, and the other one. A counter is \<open>small\<close>
  when \<open>float64\<close> represents it exactly.
\<close>

definition small :: "int \<Rightarrow> bool" where
  "small x \<longleftrightarrow> - (2 ^ 53) < x \<and> x < 2 ^ 53"

definition activeWins :: "Session \<Rightarrow> int list" where
  "activeWins s = (if HardMode s then HardWins (gamestats s) else Wins (gamestats s))"

definition otherWins :: "Session \<Rightarrow> int list" where
  "otherWins s = (if HardMode s then Wins (gamestats s) else HardWins (gamestats s))"

subsection \<open>Concrete states\<close>

text \<open>
  A game on the word SPEED whose first two positions are discovered; a session of the
  latest version on a two-word answer list and a two-word list of further guesses, with
  a current streak of 2 and a best streak of 5, and the same session once won; a session
  of main.go in hard mode in which nothing is discovered yet and the buffer holds a
  string that is not in the word list; a home directory that may hold a statistics file;
  two readings of the clock on 9 December 2026 UTC, the day 1999 days after the anchor:
  noon, and the last nanosecond before midnight.
\<close>

definition hardGlobals :: Globals where
  "hardGlobals = (startGlobals ''SPEED'' [] [])\<lparr>discovered := [True, True, False, False, False]\<rparr>"

definition exampleSession :: Session where
  "exampleSession =
     \<lparr>glob = sortWordList (parseWordLists [''SPEED'', ''CRANE''] [''AAHED'', ''ZYMIC'']
                (startGlobals ''SPEED'' [] [])),
      HardMode = False,
      gamestats = newGameStats\<lparr>Streak := 2, BestStreak := 5\<rparr>,
      guess = [], win = False, saved = []\<rparr>"

definition wonSession :: Session where
  "wonSession = exampleSession\<lparr>win := True\<rparr>"

definition mainGoSession :: Session_main_go where
  "mainGoSession =
     \<lparr>word_mg = ''SPEED'', wordList_mg = [''CRANE'', ''SPEED''], currentGuess_mg = 0,
      discovered_mg = [False, False, False, False, False], hardMode_mg = True,
      guess_mg = ''SPXXX'', win_mg = False\<rparr>"

definition noon_2026_12_09 :: int where
  "noon_2026_12_09 = 1796817600000000000"

definition last_2026_12_09 :: int where
  "last_2026_12_09 = 1796860799999999999"

definition exampleEnv :: "string option \<Rightarrow> Env" where
  "exampleEnv content =
     \<lparr>homeDir = Some ''/home/player'',
      files = (\<lambda>p. if p = ''/home/player/.wordle'' then content else None)\<rparr>"

definition exampleJoin :: "string \<Rightarrow> string \<Rightarrow> string" where
  "exampleJoin dir name = dir @ ''/'' @ name"

text \<open>
  A statistics file that is well-formed JSON but holds a string where
  \<^verbatim>\<open>total_games\<close> wants a number; its bytes are
  \<^verbatim>\<open>{"streak":7,"total_games":"x"}\<close>. On these bytes the standard library's
  decoder, given the pointer to the fresh record, decodes the object into that record in
  place, field by field: it stores 7 in \<open>Streak\<close>, skips \<open>total_games\<close>, whose value
  does not fit an \<^verbatim>\<open>int\<close>, and returns the type error once the object is read.
  \<open>mismatchDecoder\<close> is the decoder at these bytes. Nothing else is decoded with it;
  at other bytes it has the value the decoder has on bytes that are not JSON, which it
  rejects before it stores anything.
\<close>

definition dquote :: char where
  "dquote = CHR 0x22"

definition mismatchRecord :: string where
  "mismatchRecord =
     ''{'' @ [dquote] @ ''streak'' @ [dquote] @ '':7,'' @ [dquote] @ ''total_games'' @ [dquote]
       @ '':'' @ [dquote] @ ''x'' @ [dquote] @ ''}''"

definition mismatchDecoder :: Decoder where
  "mismatchDecoder raw p =
     (if raw = mismatchRecord then (map_option (\<lambda>gs. gs\<lparr>Streak := 7\<rparr>) p, True)
      else (p, True))"

section \<open>Scoring: proofs\<close>

lemma rangeFrom_ascii:
  "ascii s \<Longrightarrow> rangeFrom 0 i s = zip [i..<i + length s] (map rune_of_byte s)"
proof (induction s arbitrary: i)
  case Nil
  then show ?case by simp
next
  case (Cons c cs)
  then have "ascii cs" "byteval c < 0x80" by (simp_all add: ascii_def)
  moreover have "[i..<i + length (c # cs)] = i # [Suc i..<Suc i + length cs]"
    by (simp add: upt_conv_Cons del: upt_Suc)
  ultimately show ?case
    using Cons.IH [of "Suc i"] by (simp add: rune_of_byte_def del: upt_Suc)
qed

lemma rangeIdx_ascii: "ascii s \<Longrightarrow> rangeIdx s = [0..<length s]"
  by (simp add: rangeIdx_def rangeStr_def rangeFrom_ascii)

lemma rangeFrom_bound: "(j, r) \<in> set (rangeFrom skip i s) \<Longrightarrow> i \<le> j \<and> j < i + length s"
proof (induction s arbitrary: skip i)
  case Nil
  then show ?case by simp
next
  case (Cons c cs)
  then show ?case
    by (fastforce split: if_splits)
qed

lemma rangeIdx_bound: "j \<in> set (rangeIdx s) \<Longrightarrow> j < length s"
  using rangeFrom_bound [of j _ 0 0 s] by (auto simp: rangeIdx_def rangeStr_def)

lemma foldl_count_aux:
  "foldl (\<lambda>m (i, r). m(byte_of_rune r := m (byte_of_rune r) + 1)) m0 (zip is (map rune_of_byte s)) c
   = m0 c + int (count_list (take (length is) s) c)"
  if "length is \<le> length s"
  using that
proof (induction s arbitrary: "is" m0)
  case Nil
  then show ?case by simp
next
  case (Cons a s)
  show ?case
  proof (cases "is")
    case Nil
    then show ?thesis by simp
  next
    case (Cons j js)
    have b: "byte_of_rune (rune_of_byte a) = a"
      by (simp add: byte_of_rune_def rune_of_byte_def byteval_def)
    from Cons Cons.prems Cons.IH [of js] show ?thesis
      by (simp add: b)
  qed
qed

lemma mapString_ascii: "ascii w \<Longrightarrow> mapString w c = int (count_list w c)"
  using foldl_count_aux [of "[0..<length w]" w "\<lambda>_. 0" c]
  by (simp add: mapString_def rangeStr_def rangeFrom_ascii)

lemma formatGuess_correct_snoc:
  "formatGuess_correct gu w (is @ [i]) m =
     (case formatGuess_correct gu w is m of None \<Rightarrow> None
      | Some m' \<Rightarrow> formatGuess_correct gu w [i] m')"
  by (induction "is" arbitrary: m) simp_all

lemma formatGuess_slots_snoc:
  "formatGuess_slots gu clr (is @ [i]) lg =
     (case formatGuess_slots gu clr is lg of None \<Rightarrow> None
      | Some lg' \<Rightarrow> formatGuess_slot gu clr i lg')"
  by (induction "is" arbitrary: lg) (simp_all split: option.splits)

lemma exact_Suc:
  "exact gu w (Suc k) c = exact gu w k c + (if gu ! k = c \<and> w ! k = c then 1 else 0)"
  by (simp add: exact_def)

lemma misplaced_Suc:
  "misplaced gu w (Suc k) c = misplaced gu w k c + (if gu ! k = c \<and> w ! k \<noteq> c then 1 else 0)"
  by (simp add: misplaced_def)

lemma formatGuess_correct_upt:
  "k \<le> length gu \<Longrightarrow> k \<le> length w \<Longrightarrow>
   formatGuess_correct gu w [0..<k] m = Some (\<lambda>c. m c - int (exact gu w k c))"
proof (induction k)
  case 0
  then show ?case by (simp add: exact_def)
next
  case (Suc k)
  then show ?case
    by (auto simp: formatGuess_correct_snoc exact_Suc fun_eq_iff)
qed

lemma count_list_nth: "count_list xs c = length (filter (\<lambda>i. xs ! i = c) [0..<length xs])"
proof -
  have "filter (\<lambda>x. x = c) xs = filter (\<lambda>x. x = c) (map ((!) xs) [0..<length xs])"
    by (simp add: map_nth)
  then have "length (filter (\<lambda>x. x = c) xs) = length (filter (\<lambda>i. xs ! i = c) [0..<length xs])"
    by (simp add: filter_map comp_def)
  moreover have "count_list xs c = length (filter (\<lambda>x. x = c) xs)"
    by (induction xs) auto
  ultimately show ?thesis by simp
qed

lemma length_filter_conj_le: "length (filter (\<lambda>i. P i \<and> Q i) xs) \<le> length (filter Q xs)"
  by (induction xs) auto

lemma exact_le_count: "k \<le> length w \<Longrightarrow> exact gu w k c \<le> count_list w c"
proof -
  assume k: "k \<le> length w"
  have "exact gu w k c \<le> length (filter (\<lambda>i. w ! i = c) [0..<k])"
    unfolding exact_def by (rule length_filter_conj_le)
  also have "\<dots> \<le> length (filter (\<lambda>i. w ! i = c) ([0..<k] @ [k..<length w]))"
    by simp
  also have "[0..<k] @ [k..<length w] = [0..<length w]"
    using k upt_add_eq_append [of 0 k "length w - k"] by simp
  finally show ?thesis
    by (simp add: count_list_nth)
qed

lemma exact_misplaced: "exact gu w k c + misplaced gu w k c = count_list (take k gu) c"
  if "k \<le> length gu"
  using that
proof (induction k)
  case 0
  then show ?case by (simp add: exact_def misplaced_def)
next
  case (Suc k)
  then show ?case
    by (auto simp: exact_Suc misplaced_Suc take_Suc_conv_app_nth)
qed

lemma setKeyHint_frame: "\<exists>K. setKeyHint r h g = g\<lparr>keyboard := K\<rparr>"
proof (cases "h > keyboard g r")
  case True
  then show ?thesis by (auto simp: setKeyHint_def)
next
  case False
  then have "setKeyHint r h g = g\<lparr>keyboard := keyboard g\<rparr>"
    by (simp add: setKeyHint_def)
  then show ?thesis by blast
qed

lemma setKeyHint_fields [simp]:
  "word (setKeyHint r h g) = word g"
  "wordList (setKeyHint r h g) = wordList g"
  "allowedWords (setKeyHint r h g) = allowedWords g"
  "currentGuess (setKeyHint r h g) = currentGuess g"
  "discovered (setKeyHint r h g) = discovered g"
  "emojiStack (setKeyHint r h g) = emojiStack g"
  "dayOffset (setKeyHint r h g) = dayOffset g"
  "setKeyHint r h g\<lparr>keyboard := K\<rparr> = g\<lparr>keyboard := K\<rparr>"
  by (simp_all add: setKeyHint_def Let_def)

text \<open>
  Whatever the indices, a run of the second loop changes no global but \<open>discovered\<close> and
  \<open>keyboard\<close>, keeps every length, and changes no global at all without colours.
\<close>

lemma formatGuess_slot_frame:
  assumes "formatGuess_slot gu clr i (l, g) = Some (l', g')"
  shows "word g' = word g \<and> wordList g' = wordList g \<and> allowedWords g' = allowedWords g
       \<and> currentGuess g' = currentGuess g \<and> emojiStack g' = emojiStack g
       \<and> dayOffset g' = dayOffset g
       \<and> length (discovered g') = length (discovered g) \<and> length (slots l') = length (slots l)
       \<and> (\<not> clr \<longrightarrow> g' = g)"
  using assms
  by (auto simp: formatGuess_slot_def split: if_splits)

lemma formatGuess_slot_total:
  assumes "i < length gu" "i < length (word g)" "i < length (discovered g)" "i < length (slots l)"
  shows "\<exists>l' g'. formatGuess_slot gu clr i (l, g) = Some (l', g')"
  using assms by (simp add: formatGuess_slot_def)

lemma formatGuess_slots_frame:
  assumes "formatGuess_slots gu clr is (l, g) = Some (l', g')"
  shows "word g' = word g \<and> wordList g' = wordList g \<and> allowedWords g' = allowedWords g
       \<and> currentGuess g' = currentGuess g \<and> emojiStack g' = emojiStack g
       \<and> dayOffset g' = dayOffset g
       \<and> length (discovered g') = length (discovered g) \<and> length (slots l') = length (slots l)
       \<and> (\<not> clr \<longrightarrow> g' = g)"
  using assms
proof (induction "is" arbitrary: l g)
  case Nil
  then show ?case by simp
next
  case (Cons i "is")
  from Cons.prems obtain l1 g1 where
    s1: "formatGuess_slot gu clr i (l, g) = Some (l1, g1)"
    and s2: "formatGuess_slots gu clr is (l1, g1) = Some (l', g')"
    by (auto split: option.splits)
  from formatGuess_slot_frame [OF s1] Cons.IH [OF s2] show ?case
    by simp
qed

lemma formatGuess_slots_total:
  assumes "\<forall>i\<in>set is. i < length gu \<and> i < length (word g) \<and> i < length (discovered g) \<and> i < length (slots l)"
  shows "\<exists>l' g'. formatGuess_slots gu clr is (l, g) = Some (l', g')"
  using assms
proof (induction "is" arbitrary: l g)
  case Nil
  then show ?case by simp
next
  case (Cons i "is")
  then obtain l1 g1 where s1: "formatGuess_slot gu clr i (l, g) = Some (l1, g1)"
    using formatGuess_slot_total [of i gu g l clr] by auto
  have "\<forall>i\<in>set is. i < length gu \<and> i < length (word g1) \<and> i < length (discovered g1) \<and> i < length (slots l1)"
    using Cons.prems formatGuess_slot_frame [OF s1] by simp
  from Cons.IH [OF this] s1 show ?case by simp
qed

lemma list_update_map_upt:
  "k < n \<Longrightarrow> (map f [0..<n])[k := v] = map (f(k := v)) [0..<n]"
  by (rule nth_equalityI) (auto simp: nth_list_update)

lemma formatGuess_slots_upt:
  assumes k: "k \<le> length gu" "k \<le> length (word g)" "k \<le> length (discovered g)" "k \<le> length sl0"
  shows "\<exists>l g'. formatGuess_slots gu True [0..<k]
            (\<lparr>counts = (\<lambda>c. int (credits gu (word g) c)), slots = sl0, emoji = e0\<rparr>, g) = Some (l, g')
          \<and> counts l = (\<lambda>c. int (credits gu (word g) c - misplaced gu (word g) k c))
          \<and> slots l = map (\<lambda>i. if i < k then Colored (hintColorFns (hintAt gu (word g) i)) (gu ! i)
                                 else sl0 ! i) [0..<length sl0]
          \<and> emoji l = e0 @ map (\<lambda>i. hintEmoji (hintAt gu (word g) i)) [0..<k]
          \<and> discovered g' = map (\<lambda>i. discovered g ! i \<or> (i < k \<and> gu ! i = word g ! i))
                               [0..<length (discovered g)]
          \<and> word g' = word g"
  using k
proof (induction k)
  case 0
  show ?case
    by (simp add: misplaced_def map_nth)
next
  case (Suc k)
  let ?w = "word g"
  from Suc obtain l g1 where
    run: "formatGuess_slots gu True [0..<k]
            (\<lparr>counts = (\<lambda>c. int (credits gu ?w c)), slots = sl0, emoji = e0\<rparr>, g) = Some (l, g1)"
    and c: "counts l = (\<lambda>c. int (credits gu ?w c - misplaced gu ?w k c))"
    and s: "slots l = map (\<lambda>i. if i < k then Colored (hintColorFns (hintAt gu ?w i)) (gu ! i)
                                 else sl0 ! i) [0..<length sl0]"
    and e: "emoji l = e0 @ map (\<lambda>i. hintEmoji (hintAt gu ?w i)) [0..<k]"
    and d: "discovered g1 = map (\<lambda>i. discovered g ! i \<or> (i < k \<and> gu ! i = ?w ! i))
                               [0..<length (discovered g)]"
    and w: "word g1 = ?w"
    by auto
  have bounds: "k < length gu" "k < length ?w" "k < length (discovered g)" "k < length sl0"
    using Suc.prems by simp_all
  have ls: "length (slots l) = length sl0" and ld: "length (discovered g1) = length (discovered g)"
    by (simp_all add: s d)
  have step: "formatGuess_slots gu True [0..<Suc k]
            (\<lparr>counts = (\<lambda>c. int (credits gu ?w c)), slots = sl0, emoji = e0\<rparr>, g)
        = formatGuess_slot gu True k (l, g1)"
    by (simp add: formatGuess_slots_snoc run)
  let ?h = "hintAt gu ?w k"
  have slots': "(slots l)[k := Colored (hintColorFns ?h) (gu ! k)]
        = map (\<lambda>i. if i < Suc k then Colored (hintColorFns (hintAt gu ?w i)) (gu ! i)
                                 else sl0 ! i) [0..<length sl0]"
    unfolding s using bounds
    by (intro nth_equalityI) (auto simp: nth_list_update less_Suc_eq)
  consider (loc) "gu ! k = ?w ! k"
    | (some) "gu ! k \<noteq> ?w ! k" "misplaced gu ?w k (gu ! k) < credits gu ?w (gu ! k)"
    | (none) "gu ! k \<noteq> ?w ! k" "\<not> misplaced gu ?w k (gu ! k) < credits gu ?w (gu ! k)"
    by blast
  then show ?case
  proof cases
    case loc
    then have h: "?h = KeyHintLocated" by (simp add: hintAt_def)
    have d': "(discovered g1)[k := True] = map (\<lambda>i. discovered g ! i \<or> (i < Suc k \<and> gu ! i = ?w ! i))
                               [0..<length (discovered g)]"
      unfolding d using bounds loc
      by (intro nth_equalityI) (auto simp: nth_list_update less_Suc_eq)
    have c': "counts l = (\<lambda>c. int (credits gu ?w c - misplaced gu ?w (Suc k) c))"
      using loc by (auto simp: c misplaced_Suc fun_eq_iff)
    show ?thesis
      unfolding step
      using loc bounds ls ld w h slots' d' c' e
      by (simp add: formatGuess_slot_def)
  next
    case some
    then have h: "?h = KeyHintSomewhere" by (simp add: hintAt_def)
    have pos: "counts l (gu ! k) > 0"
      using some by (simp add: c)
    have c': "(counts l)(gu ! k := counts l (gu ! k) - 1)
          = (\<lambda>c. int (credits gu ?w c - misplaced gu ?w (Suc k) c))"
      using some by (auto simp: c misplaced_Suc fun_eq_iff)
    have d': "discovered g1 = map (\<lambda>i. discovered g ! i \<or> (i < Suc k \<and> gu ! i = ?w ! i))
                               [0..<length (discovered g)]"
      unfolding d using some by (auto simp: less_Suc_eq)
    show ?thesis
      unfolding step
      using some(1) pos bounds ls ld w h slots' d' c' e
      by (simp add: formatGuess_slot_def)
  next
    case none
    then have h: "?h = KeyHintNotInWord" by (simp add: hintAt_def)
    have pos: "\<not> counts l (gu ! k) > 0"
      using none by (simp add: c)
    have c': "counts l = (\<lambda>c. int (credits gu ?w c - misplaced gu ?w (Suc k) c))"
      using none by (auto simp: c misplaced_Suc fun_eq_iff)
    have d': "discovered g1 = map (\<lambda>i. discovered g ! i \<or> (i < Suc k \<and> gu ! i = ?w ! i))
                               [0..<length (discovered g)]"
      unfolding d using none by (auto simp: less_Suc_eq)
    show ?thesis
      unfolding step
      using none(1) pos bounds ls ld w h slots' d' c' e
      by (simp add: formatGuess_slot_def)
  qed
qed

lemma hintSlots_evaluate:
  "map (\<lambda>i. Colored (hintColorFns (hintAt gu w i)) (gu ! i)) [0..<length gu]
   = hintSlots gu (evaluate gu w)"
  by (rule nth_equalityI) (simp_all add: hintSlots_def evaluate_def)

lemma credits_int:
  "length gu \<le> length w \<Longrightarrow>
   int (count_list w c) - int (exact gu w (length gu) c) = int (credits gu w c)"
  using exact_le_count [of "length gu" w gu c] by (simp add: credits_def)

lemma formatGuess_scored:
  assumes a: "ascii gu" "ascii (word g)"
    and len: "length gu = WordLength" "length (word g) = WordLength"
             "length (discovered g) = WordLength"
  shows "\<exists>g'. formatGuess gu True g = Some (hintSlots gu (evaluate gu (word g)), g')
           \<and> emojiStack g' = emojiStack g @ [map hintEmoji (evaluate gu (word g))]
           \<and> discovered g' = map (\<lambda>i. discovered g ! i \<or> gu ! i = word g ! i) [0..<WordLength]
           \<and> word g' = word g"
proof -
  let ?w = "word g"
  have one: "formatGuess_correct gu ?w (rangeIdx gu) (mapString ?w)
             = Some (\<lambda>c. int (credits gu ?w c))"
    using a len credits_int [of gu ?w]
    by (simp add: rangeIdx_ascii formatGuess_correct_upt mapString_ascii)
  obtain l g1 where
    run: "formatGuess_slots gu True [0..<WordLength]
            (\<lparr>counts = (\<lambda>c. int (credits gu ?w c)), slots = replicate WordLength Empty, emoji = []\<rparr>, g)
          = Some (l, g1)"
    and s: "slots l = map (\<lambda>i. if i < WordLength then Colored (hintColorFns (hintAt gu ?w i)) (gu ! i)
                                 else replicate WordLength Empty ! i) [0..<length (replicate WordLength Empty)]"
    and e: "emoji l = [] @ map (\<lambda>i. hintEmoji (hintAt gu ?w i)) [0..<WordLength]"
    and d: "discovered g1 = map (\<lambda>i. discovered g ! i \<or> (i < WordLength \<and> gu ! i = ?w ! i))
                               [0..<length (discovered g)]"
    and w: "word g1 = ?w"
    using formatGuess_slots_upt [of WordLength gu g "replicate WordLength Empty" "[]"] len
    by auto
  have "slots l = map (\<lambda>i. Colored (hintColorFns (hintAt gu ?w i)) (gu ! i)) [0..<WordLength]"
    unfolding s by simp
  then have s': "slots l = hintSlots gu (evaluate gu ?w)"
    using len hintSlots_evaluate [of gu ?w] by simp
  have e': "emoji l = map hintEmoji (evaluate gu ?w)"
    using e len by (simp add: evaluate_def)
  have d': "discovered g1 = map (\<lambda>i. discovered g ! i \<or> gu ! i = ?w ! i) [0..<WordLength]"
    using d len by simp
  have es: "emojiStack g1 = emojiStack g"
    using formatGuess_slots_frame [OF run] by simp
  show ?thesis
    using a len one run s' e' d' w es
    by (simp add: formatGuess_def rangeIdx_ascii)
qed

text \<open>The loops of main.go compute what the latest loops compute.\<close>

lemma formatGuess_correct_main_go_sim:
  assumes "formatGuess_correct gu w is m = Some m'" "\<forall>i\<in>set is. i < length d"
  shows "\<exists>d'. formatGuess_correct_main_go gu w is (m, d) = Some (m', d') \<and> length d' = length d"
  using assms
proof (induction "is" arbitrary: m d)
  case Nil
  then show ?case by simp
next
  case (Cons i "is")
  from Cons.prems have b: "i < length gu" "i < length w" "i < length d"
    by (auto split: if_splits)
  show ?case
  proof (cases "gu ! i = w ! i")
    case True
    with Cons.prems b have "formatGuess_correct gu w is (m(w ! i := m (w ! i) - 1)) = Some m'"
      by simp
    moreover have "\<forall>j\<in>set is. j < length (d[i := True])"
      using Cons.prems by simp
    ultimately obtain d' where
      "formatGuess_correct_main_go gu w is (m(w ! i := m (w ! i) - 1), d[i := True]) = Some (m', d')"
      "length d' = length (d[i := True])"
      using Cons.IH by blast
    with True b show ?thesis by simp
  next
    case False
    with Cons.prems b have "formatGuess_correct gu w is m = Some m'"
      by simp
    moreover have "\<forall>j\<in>set is. j < length d"
      using Cons.prems by simp
    ultimately obtain d' where
      "formatGuess_correct_main_go gu w is (m, d) = Some (m', d')" "length d' = length d"
      using Cons.IH by blast
    with False b show ?thesis by simp
  qed
qed

lemma formatGuess_slots_main_go_sim:
  assumes "formatGuess_slots gu True is (l, g) = Some (l', g')"
  shows "formatGuess_slots_main_go gu (word g) True is (counts l, slots l) = Some (counts l', slots l')"
  using assms
proof (induction "is" arbitrary: l g)
  case Nil
  then show ?case by simp
next
  case (Cons i "is")
  from Cons.prems obtain l1 g1 where
    s1: "formatGuess_slot gu True i (l, g) = Some (l1, g1)"
    and s2: "formatGuess_slots gu True is (l1, g1) = Some (l', g')"
    by (auto split: option.splits)
  have w: "word g1 = word g"
    using s1 by (auto simp: formatGuess_slot_def split: if_splits)
  have "formatGuess_slots_main_go gu (word g) True (i # is) (counts l, slots l)
      = formatGuess_slots_main_go gu (word g) True is (counts l1, slots l1)"
    using s1 by (auto simp: formatGuess_slot_def split: if_splits)
  with Cons.IH [OF s2] w show ?case by simp
qed

lemma formatGuess_main_go_scored:
  fixes g :: Globals
  assumes a: "ascii gu" "ascii (word g)"
    and len: "length gu = WordLength" "length (word g) = WordLength"
             "length (discovered g) = WordLength"
  shows "\<exists>d'. formatGuess_main_go (word g) gu True (discovered g)
                = Some (hintSlots gu (evaluate gu (word g)), d')"
proof -
  let ?w = "word g"
  have ne: "gu \<noteq> []"
    using len by (auto simp: WordLength_def)
  have one: "formatGuess_correct gu ?w [0..<WordLength] (mapString ?w)
             = Some (\<lambda>c. int (credits gu ?w c))"
    using a len credits_int [of gu ?w]
    by (simp add: formatGuess_correct_upt mapString_ascii)
  obtain d' where one': "formatGuess_correct_main_go gu ?w [0..<WordLength] (mapString ?w, discovered g)
             = Some (\<lambda>c. int (credits gu ?w c), d')"
    using formatGuess_correct_main_go_sim [OF one, of "discovered g"] len by auto
  obtain l g1 where
    run: "formatGuess_slots gu True [0..<WordLength]
            (\<lparr>counts = (\<lambda>c. int (credits gu ?w c)), slots = replicate WordLength Empty, emoji = []\<rparr>, g)
          = Some (l, g1)"
    and s: "slots l = map (\<lambda>i. if i < WordLength then Colored (hintColorFns (hintAt gu ?w i)) (gu ! i)
                                 else replicate WordLength Empty ! i) [0..<length (replicate WordLength Empty)]"
    using formatGuess_slots_upt [of WordLength gu g "replicate WordLength Empty" "[]"] len
    by auto
  have "slots l = map (\<lambda>i. Colored (hintColorFns (hintAt gu ?w i)) (gu ! i)) [0..<WordLength]"
    unfolding s by simp
  then have s': "slots l = hintSlots gu (evaluate gu ?w)"
    using len hintSlots_evaluate [of gu ?w] by simp
  have two: "formatGuess_slots_main_go gu ?w True [0..<WordLength]
               (\<lambda>c. int (credits gu ?w c), replicate WordLength Empty)
             = Some (counts l, hintSlots gu (evaluate gu ?w))"
    using formatGuess_slots_main_go_sim [OF run] s' by simp
  show ?thesis
    using a len ne one' two
    by (simp add: formatGuess_main_go_def rangeIdx_ascii)
qed

lemma evaluate_ERASE_SPEED:
  "evaluate ''ERASE'' ''SPEED''
   = [KeyHintSomewhere, KeyHintNotInWord, KeyHintNotInWord, KeyHintSomewhere, KeyHintSomewhere]"
  by (simp add: evaluate_def hintAt_def misplaced_def credits_def exact_def upt_rec)

lemma located_count:
  "length (filter (\<lambda>i. gu ! i = c \<and> hintAt gu w i = KeyHintLocated) [0..<k]) = exact gu w k c"
proof -
  have "filter (\<lambda>i. gu ! i = c \<and> hintAt gu w i = KeyHintLocated) [0..<k]
      = filter (\<lambda>i. gu ! i = c \<and> w ! i = c) [0..<k]"
    by (rule filter_cong) (auto simp: hintAt_def)
  then show ?thesis by (simp add: exact_def)
qed

lemma somewhere_count:
  "length (filter (\<lambda>i. gu ! i = c \<and> hintAt gu w i = KeyHintSomewhere) [0..<k])
   = min (misplaced gu w k c) (credits gu w c)"
proof (induction k)
  case 0
  then show ?case by (simp add: misplaced_def)
next
  case (Suc k)
  then show ?case
    by (auto simp: misplaced_Suc hintAt_def)
qed

lemma notinword_count:
  "length (filter (\<lambda>i. gu ! i = c \<and> hintAt gu w i = KeyHintNotInWord) [0..<k])
   = misplaced gu w k c - credits gu w c"
proof (induction k)
  case 0
  then show ?case by (simp add: misplaced_def)
next
  case (Suc k)
  then show ?case
    by (auto simp: misplaced_Suc hintAt_def)
qed

lemma hintEmoji_eq [simp]:
  "hintAt gu w i \<noteq> KeyHintUnknown"
  "hintEmoji (hintAt gu w i) = EmojiLocated \<longleftrightarrow> hintAt gu w i = KeyHintLocated"
  "hintEmoji (hintAt gu w i) = EmojiSomewhere \<longleftrightarrow> hintAt gu w i = KeyHintSomewhere"
  "hintEmoji (hintAt gu w i) = EmojiNotInWord \<longleftrightarrow> hintAt gu w i = KeyHintNotInWord"
  by (simp_all add: hintAt_def EmojiLocated_def EmojiSomewhere_def EmojiNotInWord_def)

lemma marked_evaluate:
  "marked (hintEmoji h) c gu (map hintEmoji (evaluate gu w))
   = length (filter (\<lambda>i. gu ! i = c \<and> hintEmoji (hintAt gu w i) = hintEmoji h) [0..<length gu])"
  unfolding marked_def
  by (rule arg_cong [where f = length], rule filter_cong) (auto simp: evaluate_def)

lemma marked_counts:
  assumes "length gu = length w"
  shows "marked EmojiLocated c gu (map hintEmoji (evaluate gu w))
         + marked EmojiSomewhere c gu (map hintEmoji (evaluate gu w))
         = min (count_list gu c) (count_list w c)"
    and "marked EmojiNotInWord c gu (map hintEmoji (evaluate gu w))
         = count_list gu c - count_list w c"
proof -
  let ?n = "length gu"
  have em: "exact gu w ?n c + misplaced gu w ?n c = count_list gu c"
    using exact_misplaced [of ?n gu w c] by simp
  have le: "exact gu w ?n c \<le> count_list w c"
    using exact_le_count [of ?n w gu c] assms by simp
  have l: "marked EmojiLocated c gu (map hintEmoji (evaluate gu w)) = exact gu w ?n c"
    using marked_evaluate [of KeyHintLocated c gu w] by (simp add: located_count)
  have s: "marked EmojiSomewhere c gu (map hintEmoji (evaluate gu w))
           = min (misplaced gu w ?n c) (credits gu w c)"
    using marked_evaluate [of KeyHintSomewhere c gu w] by (simp add: somewhere_count)
  have n: "marked EmojiNotInWord c gu (map hintEmoji (evaluate gu w))
           = misplaced gu w ?n c - credits gu w c"
    using marked_evaluate [of KeyHintNotInWord c gu w] by (simp add: notinword_count)
  show "marked EmojiLocated c gu (map hintEmoji (evaluate gu w))
         + marked EmojiSomewhere c gu (map hintEmoji (evaluate gu w))
         = min (count_list gu c) (count_list w c)"
    using l s em le by (simp add: credits_def)
  show "marked EmojiNotInWord c gu (map hintEmoji (evaluate gu w))
         = count_list gu c - count_list w c"
    using n em le by (simp add: credits_def)
qed

subsection \<open>The two passes (claims C1 and C10)\<close>

text \<open>
  Claim C1. Guess evaluation is duplicate-letter-correct through its two passes. For every
  ASCII guess and target of length \<open>WordLength\<close>, \<open>formatGuess\<close> with colours returns,
  in the latest version and in main.go alike, the slots of \<open>evaluate\<close>: a position where
  guess and target agree is Located (green); the exact matches of the whole guess use up
  credits of their letter first; every other position is Somewhere (yellow) while the
  earlier misplaced occurrences of its letter have left a credit, and NotInWord (red)
  otherwise. The latest version appends the matching emoji row. In particular, ERASE
  against SPEED is Somewhere, NotInWord, NotInWord, Somewhere, Somewhere.
\<close>

theorem formatGuess_two_pass:
  fixes g :: Globals
  assumes "ascii gu" "ascii (word g)"
    and "length gu = WordLength" "length (word g) = WordLength"
    and "length (discovered g) = WordLength"
  shows "(\<exists>g'. formatGuess gu True g = Some (hintSlots gu (evaluate gu (word g)), g')
              \<and> last (emojiStack g') = map hintEmoji (evaluate gu (word g)))
       \<and> (\<exists>d'. formatGuess_main_go (word g) gu True (discovered g)
                = Some (hintSlots gu (evaluate gu (word g)), d'))
       \<and> evaluate ''ERASE'' ''SPEED''
           = [KeyHintSomewhere, KeyHintNotInWord, KeyHintNotInWord, KeyHintSomewhere, KeyHintSomewhere]"
proof -
  from formatGuess_scored [OF assms] obtain g' where
    "formatGuess gu True g = Some (hintSlots gu (evaluate gu (word g)), g')"
    "emojiStack g' = emojiStack g @ [map hintEmoji (evaluate gu (word g))]"
    by blast
  then have "\<exists>g'. formatGuess gu True g = Some (hintSlots gu (evaluate gu (word g)), g')
              \<and> last (emojiStack g') = map hintEmoji (evaluate gu (word g))"
    by simp
  with formatGuess_main_go_scored [OF assms] evaluate_ERASE_SPEED show ?thesis
    by blast
qed

theorem formatGuess_two_pass_witness:
  "ascii ''ERASE'' \<and> ascii ''SPEED'' \<and> length ''ERASE'' = WordLength \<and> length ''SPEED'' = WordLength
   \<and> length (discovered (startGlobals ''SPEED'' [] [])) = WordLength
   \<and> (\<exists>g'. formatGuess ''ERASE'' True (startGlobals ''SPEED'' [] [])
             = Some ([Colored YellowString CHR ''E'', Colored RedString CHR ''R'',
                      Colored RedString CHR ''A'', Colored YellowString CHR ''S'',
                      Colored YellowString CHR ''E''], g')
           \<and> last (emojiStack g')
             = [EmojiSomewhere, EmojiNotInWord, EmojiNotInWord, EmojiSomewhere, EmojiSomewhere])
   \<and> (\<exists>d'. formatGuess_main_go ''SPEED'' ''ERASE'' True (replicate WordLength False)
             = Some ([Colored YellowString CHR ''E'', Colored RedString CHR ''R'',
                      Colored RedString CHR ''A'', Colored YellowString CHR ''S'',
                      Colored YellowString CHR ''E''], d'))"
proof -
  have h: "ascii ''ERASE''" "ascii (word (startGlobals ''SPEED'' [] []))"
    "length ''ERASE'' = WordLength" "length (word (startGlobals ''SPEED'' [] [])) = WordLength"
    "length (discovered (startGlobals ''SPEED'' [] [])) = WordLength"
    by (simp_all add: ascii_def byteval_def startGlobals_def WordLength_def)
  have w: "word (startGlobals ''SPEED'' [] []) = ''SPEED''"
    "discovered (startGlobals ''SPEED'' [] []) = replicate WordLength False"
    by (simp_all add: startGlobals_def)
  have e: "hintSlots ''ERASE'' (evaluate ''ERASE'' ''SPEED'')
      = [Colored YellowString CHR ''E'', Colored RedString CHR ''R'',
         Colored RedString CHR ''A'', Colored YellowString CHR ''S'',
         Colored YellowString CHR ''E'']"
    "map hintEmoji (evaluate ''ERASE'' ''SPEED'')
      = [EmojiSomewhere, EmojiNotInWord, EmojiNotInWord, EmojiSomewhere, EmojiSomewhere]"
    by (simp_all add: evaluate_ERASE_SPEED hintSlots_def)
  show ?thesis
    using h formatGuess_two_pass [OF h]
    unfolding w e by simp
qed


text \<open>
  Claim C10. For every scored guess and every letter \<open>c\<close>, the positions of \<open>c\<close> marked
  Located and those marked Somewhere are together at most the occurrences of \<open>c\<close> in the
  word; they are exactly the smaller of the occurrences of \<open>c\<close> in the guess and in the
  word, and every further occurrence of \<open>c\<close> in the guess is marked NotInWord.
\<close>

theorem formatGuess_credit_bound:
  fixes g :: Globals
  assumes "ascii gu" "ascii (word g)"
    and "length gu = WordLength" "length (word g) = WordLength"
    and "length (discovered g) = WordLength"
  shows "\<exists>sl g'. formatGuess gu True g = Some (sl, g')
       \<and> marked EmojiLocated c gu (last (emojiStack g')) + marked EmojiSomewhere c gu (last (emojiStack g'))
           \<le> count_list (word g) c
       \<and> marked EmojiLocated c gu (last (emojiStack g')) + marked EmojiSomewhere c gu (last (emojiStack g'))
           = min (count_list gu c) (count_list (word g) c)
       \<and> marked EmojiNotInWord c gu (last (emojiStack g'))
           = count_list gu c - count_list (word g) c"
proof -
  from formatGuess_scored [OF assms] obtain g' where
    r: "formatGuess gu True g = Some (hintSlots gu (evaluate gu (word g)), g')"
    and e: "emojiStack g' = emojiStack g @ [map hintEmoji (evaluate gu (word g))]"
    by blast
  have l: "last (emojiStack g') = map hintEmoji (evaluate gu (word g))"
    using e by simp
  have len: "length gu = length (word g)"
    using assms by simp
  have "marked EmojiLocated c gu (last (emojiStack g')) + marked EmojiSomewhere c gu (last (emojiStack g'))
           = min (count_list gu c) (count_list (word g) c)"
    and "marked EmojiNotInWord c gu (last (emojiStack g')) = count_list gu c - count_list (word g) c"
    unfolding l by (rule marked_counts [OF len])+
  with r show ?thesis
    by (intro exI [of _ "hintSlots gu (evaluate gu (word g))"] exI [of _ g']) simp
qed

theorem formatGuess_credit_bound_witness:
  "ascii ''EERIE'' \<and> ascii ''SPEED'' \<and> length ''EERIE'' = WordLength \<and> length ''SPEED'' = WordLength
   \<and> length (discovered (startGlobals ''SPEED'' [] [])) = WordLength
   \<and> (\<exists>sl g'. formatGuess ''EERIE'' True (startGlobals ''SPEED'' [] []) = Some (sl, g')
       \<and> marked EmojiLocated CHR ''E'' ''EERIE'' (last (emojiStack g'))
         + marked EmojiSomewhere CHR ''E'' ''EERIE'' (last (emojiStack g')) \<le> 2
       \<and> marked EmojiLocated CHR ''E'' ''EERIE'' (last (emojiStack g'))
         + marked EmojiSomewhere CHR ''E'' ''EERIE'' (last (emojiStack g')) = 2
       \<and> marked EmojiNotInWord CHR ''E'' ''EERIE'' (last (emojiStack g')) = 1)"
proof -
  have h: "ascii ''EERIE''" "ascii (word (startGlobals ''SPEED'' [] []))"
    "length ''EERIE'' = WordLength" "length (word (startGlobals ''SPEED'' [] [])) = WordLength"
    "length (discovered (startGlobals ''SPEED'' [] [])) = WordLength"
    by (simp_all add: ascii_def byteval_def startGlobals_def WordLength_def)
  have w: "word (startGlobals ''SPEED'' [] []) = ''SPEED''"
    by (simp add: startGlobals_def)
  have c: "count_list ''EERIE'' CHR ''E'' = 3" "count_list ''SPEED'' CHR ''E'' = 2"
    by simp_all
  show ?thesis
    using h formatGuess_credit_bound [OF h, of "CHR ''E''"]
    unfolding w c by simp
qed

section \<open>The keyboard (claim C8)\<close>

lemma setKeyHint_keyboard:
  "keyboard (setKeyHint r h g) = (keyboard g)(r := max (keyboard g r) h)"
  by (auto simp: setKeyHint_def max_def fun_eq_iff)

lemma setKeyHint_mono: "keyboard g r' \<le> keyboard (setKeyHint r h g) r'"
  by (simp add: setKeyHint_keyboard)

lemma setKeyHints_mono: "keyboard g r \<le> keyboard (setKeyHints hs g) r"
proof (induction hs arbitrary: g)
  case Nil
  then show ?case by (simp add: setKeyHints_def)
next
  case (Cons p hs)
  obtain r' h' where p: "p = (r', h')" by (cases p)
  have "keyboard g r \<le> keyboard (setKeyHint r' h' g) r"
    by (rule setKeyHint_mono)
  also have "\<dots> \<le> keyboard (setKeyHints hs (setKeyHint r' h' g)) r"
    by (rule Cons.IH)
  finally show ?case
    by (simp add: setKeyHints_def p)
qed

lemma setKeyHints_ge: "(r, h) \<in> set hs \<Longrightarrow> h \<le> keyboard (setKeyHints hs g) r"
proof (induction hs arbitrary: g)
  case Nil
  then show ?case by simp
next
  case (Cons p hs)
  obtain r' h' where p: "p = (r', h')" by (cases p)
  have unfold: "setKeyHints (p # hs) g = setKeyHints hs (setKeyHint r' h' g)"
    by (simp add: setKeyHints_def p)
  show ?case
  proof (cases "(r, h) = p")
    case True
    then have "h \<le> keyboard (setKeyHint r' h' g) r"
      using p by (simp add: setKeyHint_keyboard)
    also have "\<dots> \<le> keyboard (setKeyHints hs (setKeyHint r' h' g)) r"
      by (rule setKeyHints_mono)
    finally show ?thesis by (simp add: unfold)
  next
    case False
    with Cons.prems have "(r, h) \<in> set hs" by simp
    from Cons.IH [OF this] show ?thesis by (simp add: unfold)
  qed
qed

lemma formatGuess_slot_keyboard:
  assumes "formatGuess_slot gu clr i (l, g) = Some (l', g')"
  shows "keyboard g r \<le> keyboard g' r"
  using assms
  by (auto simp: formatGuess_slot_def setKeyHint_keyboard split: if_splits)

lemma formatGuess_slots_keyboard:
  assumes "formatGuess_slots gu clr is (l, g) = Some (l', g')"
  shows "keyboard g r \<le> keyboard g' r"
  using assms
proof (induction "is" arbitrary: l g)
  case Nil
  then show ?case by simp
next
  case (Cons i "is")
  from Cons.prems obtain l1 g1 where
    s1: "formatGuess_slot gu clr i (l, g) = Some (l1, g1)"
    and s2: "formatGuess_slots gu clr is (l1, g1) = Some (l', g')"
    by (auto split: option.splits)
  from formatGuess_slot_keyboard [OF s1] Cons.IH [OF s2] show ?case
    by (rule order_trans)
qed

lemma formatGuess_keyboard:
  assumes "formatGuess gu clr g = Some (sl, g')"
  shows "keyboard g r \<le> keyboard g' r"
proof -
  from assms obtain m l g1 where
    run: "formatGuess_slots gu clr (rangeIdx gu)
            (\<lparr>counts = m, slots = replicate WordLength Empty, emoji = []\<rparr>, g) = Some (l, g1)"
    and g': "g' = (if clr then g1\<lparr>emojiStack := emojiStack g1 @ [emoji l]\<rparr> else g1)"
    by (auto simp: formatGuess_def split: option.splits)
  from formatGuess_slots_keyboard [OF run] show ?thesis
    by (simp add: g')
qed

text \<open>
  Claim C8. \<open>setKeyHint\<close> stores the maximum of the hint a letter has and the new one,
  in the order Unknown < NotInWord < Somewhere < Located, and changes no other letter.
  So after any sequence of recorded hints a letter's hint is at least what it was and at
  least every hint set for it in the sequence; and \<open>formatGuess\<close>, which touches the
  keyboard only through \<open>setKeyHint\<close>, never lowers a hint.
\<close>

theorem setKeyHint_keeps_maximum:
  "keyboard (setKeyHint r h g) = (keyboard g)(r := max (keyboard g r) h)
   \<and> KeyHintUnknown < KeyHintNotInWord \<and> KeyHintNotInWord < KeyHintSomewhere
   \<and> KeyHintSomewhere < KeyHintLocated
   \<and> keyboard g r \<le> keyboard (setKeyHints hs g) r
   \<and> (\<forall>h'. (r, h') \<in> set hs \<longrightarrow> h' \<le> keyboard (setKeyHints hs g) r)
   \<and> (\<forall>gu clr sl g'. formatGuess gu clr g = Some (sl, g') \<longrightarrow> keyboard g r \<le> keyboard g' r)"
  using setKeyHint_keyboard [of r h g] setKeyHints_mono [of g r hs] setKeyHints_ge [of r _ hs g]
    formatGuess_keyboard [of _ _ g _ _ r]
  by (simp add: less_KeyHint_def)

theorem setKeyHint_keeps_maximum_witness:
  "keyboard (setKeyHints [(0x45, KeyHintLocated), (0x45, KeyHintNotInWord)] (startGlobals ''SPEED'' [] [])) 0x45
     = KeyHintLocated
   \<and> (0x45, KeyHintLocated) \<in> set [(0x45, KeyHintLocated), (0x45 :: rune, KeyHintNotInWord)]
   \<and> (\<exists>sl g'. formatGuess ''ERASE'' True (startGlobals ''SPEED'' [] []) = Some (sl, g')
         \<and> keyboard (startGlobals ''SPEED'' [] []) 0x45 \<le> keyboard g' 0x45)"
proof -
  let ?hs = "[(0x45, KeyHintLocated), (0x45 :: rune, KeyHintNotInWord)]"
  let ?g = "startGlobals ''SPEED'' [] []"
  note inst = setKeyHint_keeps_maximum [of "0x45" KeyHintLocated ?g ?hs]
  have m: "(0x45, KeyHintLocated) \<in> set ?hs" by simp
  have "KeyHintLocated \<le> keyboard (setKeyHints ?hs ?g) 0x45"
    using inst m by blast
  then have k: "keyboard (setKeyHints ?hs ?g) 0x45 = KeyHintLocated"
    by (cases "keyboard (setKeyHints ?hs ?g) 0x45") (simp_all add: less_eq_KeyHint_def)
  have "ascii ''ERASE''" "ascii (word ?g)" "length ''ERASE'' = WordLength"
    "length (word ?g) = WordLength" "length (discovered ?g) = WordLength"
    by (simp_all add: ascii_def byteval_def startGlobals_def WordLength_def)
  from formatGuess_scored [OF this] obtain sl g' where
    f: "formatGuess ''ERASE'' True ?g = Some (sl, g')"
    by blast
  then have "keyboard ?g 0x45 \<le> keyboard g' 0x45"
    using inst by blast
  with k m f show ?thesis by blast
qed

section \<open>Hard mode (claim C4)\<close>

lemma hardModeEnforcement_loop_all:
  assumes "\<forall>i\<in>set is. i < length d \<and> i < length gu \<and> i < length w"
  shows "hardModeEnforcement_loop gu w d is = Some (\<forall>i\<in>set is. d ! i \<longrightarrow> gu ! i = w ! i)"
  using assms by (induction "is") auto

lemma hardModeEnforcement_ascii:
  fixes g :: Globals
  assumes "ascii (word g)" "length (word g) \<le> length gu" "length (word g) \<le> length (discovered g)"
  shows "hardModeEnforcement gu g = Some (\<forall>i<length (word g). discovered g ! i \<longrightarrow> gu ! i = word g ! i)"
  using assms hardModeEnforcement_loop_all [of "[0..<length (word g)]" "discovered g" gu "word g"]
  by (auto simp: hardModeEnforcement_def rangeIdx_ascii)

lemma violations_empty:
  "violations gu g = [] \<longleftrightarrow> (\<forall>i<WordLength. discovered g ! i \<longrightarrow> gu ! i = word g ! i)"
  by (auto simp: violations_def filter_empty_conv)

text \<open>
  Claim C4, as amended. On a word, a guess and a mask of length \<open>WordLength\<close>, the
  hard-mode check accepts a guess if and only if the guess equals the word at every
  discovered position. It reads the word and the mask only, so letters hinted Somewhere
  (which live in the keyboard and the emoji rows) impose nothing. It is the same function
  in main.go. Its result is one boolean: it is \<open>false\<close> exactly when some position
  violates the rule, and names none.
\<close>

theorem hardModeEnforcement_located_only:
  fixes g :: Globals
  assumes "ascii (word g)" "length (word g) = WordLength" "length gu = WordLength"
    and "length (discovered g) = WordLength"
  shows "hardModeEnforcement gu g
           = Some (\<forall>i<WordLength. discovered g ! i \<longrightarrow> gu ! i = word g ! i)
       \<and> hardModeEnforcement gu (g\<lparr>keyboard := K, emojiStack := E\<rparr>) = hardModeEnforcement gu g
       \<and> hardModeEnforcement_main_go (word g) (discovered g) gu = hardModeEnforcement gu g
       \<and> (hardModeEnforcement gu g = Some False \<longleftrightarrow> violations gu g \<noteq> [])"
proof -
  have one: "hardModeEnforcement gu g
           = Some (\<forall>i<WordLength. discovered g ! i \<longrightarrow> gu ! i = word g ! i)"
    using hardModeEnforcement_ascii [of g gu] assms by simp
  have two: "hardModeEnforcement gu (g\<lparr>keyboard := K, emojiStack := E\<rparr>) = hardModeEnforcement gu g"
    by (simp add: hardModeEnforcement_def)
  have three: "hardModeEnforcement_main_go (word g) (discovered g) gu = hardModeEnforcement gu g"
    by (simp add: hardModeEnforcement_def hardModeEnforcement_main_go_def)
  have four: "hardModeEnforcement gu g = Some False \<longleftrightarrow> violations gu g \<noteq> []"
    unfolding one violations_empty by simp
  from one two three four show ?thesis by blast
qed

theorem hardModeEnforcement_located_only_witness:
  "ascii (word hardGlobals) \<and> length (word hardGlobals) = WordLength \<and> length ''SPOON'' = WordLength
   \<and> length (discovered hardGlobals) = WordLength
   \<and> hardModeEnforcement ''SPOON'' hardGlobals = Some True
   \<and> hardModeEnforcement ''CRANE'' hardGlobals = Some False
   \<and> violations ''CRANE'' hardGlobals \<noteq> []"
proof -
  have h: "ascii (word hardGlobals)" "length (word hardGlobals) = WordLength"
    "length (discovered hardGlobals) = WordLength"
    by (simp_all add: hardGlobals_def startGlobals_def ascii_def byteval_def WordLength_def)
  have l: "length ''SPOON'' = WordLength" "length ''CRANE'' = WordLength"
    by (simp_all add: WordLength_def)
  have a: "(\<forall>i<WordLength. discovered hardGlobals ! i \<longrightarrow> ''SPOON'' ! i = word hardGlobals ! i)"
    by (simp add: hardGlobals_def startGlobals_def WordLength_def less_Suc_eq eval_nat_numeral all_conj_distrib)
  have b: "\<not> (\<forall>i<WordLength. discovered hardGlobals ! i \<longrightarrow> ''CRANE'' ! i = word hardGlobals ! i)"
    by (auto simp: hardGlobals_def startGlobals_def WordLength_def intro!: exI [of _ 0])
  note s = hardModeEnforcement_located_only [OF h(1,2) l(1) h(3),
      where K = "keyboard hardGlobals" and E = "[]"]
  note c = hardModeEnforcement_located_only [OF h(1,2) l(2) h(3),
      where K = "keyboard hardGlobals" and E = "[]"]
  have t: "hardModeEnforcement ''SPOON'' hardGlobals = Some True"
    using conjunct1 [OF s] a by simp
  have f1: "hardModeEnforcement ''CRANE'' hardGlobals = Some False"
    using conjunct1 [OF c] b by simp
  have f: "hardModeEnforcement ''CRANE'' hardGlobals = Some False \<and> violations ''CRANE'' hardGlobals \<noteq> []"
    using f1 c by blast
  from t f h l show ?thesis by simp
qed

text \<open>
  Claim C4 as stated also has the check report the violating positions. It does not: on
  the word SPEED with the first two positions discovered, XPEED violates position 0 and
  SXEED violates position 1, and the check returns the same for both.
\<close>

theorem hardModeEnforcement_names_no_position:
  "hardModeEnforcement ''XPEED'' hardGlobals = hardModeEnforcement ''SXEED'' hardGlobals
   \<and> violations ''XPEED'' hardGlobals = [0] \<and> violations ''SXEED'' hardGlobals = [1]"
  by (simp add: hardModeEnforcement_def hardGlobals_def startGlobals_def rangeIdx_def rangeStr_def
      byteval_def violations_def WordLength_def upt_rec)

section \<open>Word lists (claim C6)\<close>

lemma Search_loop_spec:
  assumes "i \<le> j" "j \<le> n"
    and "\<forall>k<i. \<not> f k" "\<forall>k. j \<le> k \<and> k < n \<longrightarrow> f k"
    and "\<forall>a b. a \<le> b \<and> b < n \<and> f a \<longrightarrow> f b"
  shows "Search_loop f i j \<le> n \<and> (\<forall>k<Search_loop f i j. \<not> f k)
       \<and> (\<forall>k. Search_loop f i j \<le> k \<and> k < n \<longrightarrow> f k)"
  using assms
proof (induction f i j rule: Search_loop.induct)
  case (1 f i j)
  have unfold: "Search_loop f i j =
      (if i < j then (if \<not> f ((i + j) div 2) then Search_loop f ((i + j) div 2 + 1) j
                      else Search_loop f i ((i + j) div 2)) else i)"
    by (subst Search_loop.simps) (simp add: Let_def)
  show ?case
  proof (cases "i < j")
    case False
    then have "Search_loop f i j = i" by (simp add: unfold)
    with False "1.prems" show ?thesis by simp
  next
    case True
    let ?h = "(i + j) div 2"
    have h: "i \<le> ?h" "?h < j" using True by simp_all
    show ?thesis
    proof (cases "f ?h")
      case False
      have below: "\<forall>k<?h + 1. \<not> f k"
      proof (intro allI impI)
        fix k assume "k < ?h + 1"
        then have "k \<le> ?h" by simp
        with False "1.prems"(2,5) h show "\<not> f k"
          by (meson le_trans less_le_trans)
      qed
      have "Search_loop f (?h + 1) j \<le> n \<and> (\<forall>k<Search_loop f (?h + 1) j. \<not> f k)
            \<and> (\<forall>k. Search_loop f (?h + 1) j \<le> k \<and> k < n \<longrightarrow> f k)"
        using "1.IH"(1) [OF True refl False _ "1.prems"(2) below "1.prems"(4,5)] h by simp
      moreover have "Search_loop f i j = Search_loop f (?h + 1) j"
        using True False by (simp add: unfold)
      ultimately show ?thesis by simp
    next
      case fh: True
      have above: "\<forall>k. ?h \<le> k \<and> k < n \<longrightarrow> f k"
        using fh "1.prems"(5) by blast
      have "Search_loop f i ?h \<le> n \<and> (\<forall>k<Search_loop f i ?h. \<not> f k)
            \<and> (\<forall>k. Search_loop f i ?h \<le> k \<and> k < n \<longrightarrow> f k)"
        using "1.IH"(2) [OF True refl _ h(1) _ "1.prems"(3) above "1.prems"(5)] fh h "1.prems"(2)
        by simp
      moreover have "Search_loop f i j = Search_loop f i ?h"
        using True fh by (simp add: unfold)
      ultimately show ?thesis by simp
    qed
  qed
qed

lemma SearchStrings_found:
  fixes a :: "string list"
  assumes "sorted a"
  shows "(SearchStrings a x < length a \<and> a ! SearchStrings a x = x) \<longleftrightarrow> x \<in> set a"
proof -
  let ?f = "\<lambda>i. a ! i \<ge> x"
  let ?r = "SearchStrings a x"
  have mono: "\<forall>i j. i \<le> j \<and> j < length a \<and> ?f i \<longrightarrow> ?f j"
    using assms by (meson order_trans sorted_nth_mono)
  have spec: "?r \<le> length a \<and> (\<forall>k<?r. \<not> ?f k) \<and> (\<forall>k. ?r \<le> k \<and> k < length a \<longrightarrow> ?f k)"
    unfolding SearchStrings_def Search_def
    by (rule Search_loop_spec) (use mono in auto)
  show ?thesis
  proof
    assume "?r < length a \<and> a ! ?r = x"
    then show "x \<in> set a" by (metis nth_mem)
  next
    assume "x \<in> set a"
    then obtain k where k: "k < length a" "a ! k = x"
      by (auto simp: in_set_conv_nth)
    have "?r \<le> k"
    proof (rule ccontr)
      assume "\<not> ?r \<le> k"
      then have "\<not> ?f k" using spec by simp
      with k show False by simp
    qed
    with k have r: "?r < length a" by simp
    have "a ! ?r \<le> a ! k"
      by (rule sorted_nth_mono [OF assms \<open>?r \<le> k\<close> k(1)])
    then have "a ! ?r \<le> x"
      by (simp only: k(2))
    moreover have "x \<le> a ! ?r"
      using spec r by simp
    ultimately show "?r < length a \<and> a ! ?r = x"
      using r by simp
  qed
qed

lemma isWord_mem:
  assumes "sorted (wordList g)" "sorted (allowedWords g)"
  shows "isWord w g \<longleftrightarrow> w \<in> set (wordList g) \<or> w \<in> set (allowedWords g)"
  using SearchStrings_found [OF assms(1), of w] SearchStrings_found [OF assms(2), of w]
  by (auto simp: isWord_def Let_def)

text \<open>
  Claim C6. With the list of further guesses in sorted order, as its file is expected to
  hold it, and the answer list sorted by \<open>main\<close> before the first guess, \<open>isWord\<close>
  accepts a string if and only if it is a member of one of the two lists; membership
  is decided by the binary search \<open>SearchStrings\<close> over each list.
\<close>

theorem isWord_iff_member:
  assumes "sorted bad"
  shows "isWord w (sortWordList (parseWordLists good bad g)) \<longleftrightarrow> w \<in> set good \<or> w \<in> set bad"
proof -
  let ?g = "sortWordList (parseWordLists good bad g)"
  have "sorted (wordList ?g)" "sorted (allowedWords ?g)"
    using assms by (simp_all add: sortWordList_def parseWordLists_def)
  from isWord_mem [OF this, of w] show ?thesis
    by (simp add: sortWordList_def parseWordLists_def)
qed

theorem isWord_iff_member_witness:
  "sorted [''AAHED'', ''ZYMIC''] \<and>
   isWord ''CRANE'' (sortWordList (parseWordLists [''SPEED'', ''CRANE''] [''AAHED'', ''ZYMIC'']
        (startGlobals ''SPEED'' [] []))) \<and>
   isWord ''ZYMIC'' (sortWordList (parseWordLists [''SPEED'', ''CRANE''] [''AAHED'', ''ZYMIC'']
        (startGlobals ''SPEED'' [] []))) \<and>
   \<not> isWord ''XXXXX'' (sortWordList (parseWordLists [''SPEED'', ''CRANE''] [''AAHED'', ''ZYMIC'']
        (startGlobals ''SPEED'' [] [])))"
proof -
  have s: "sorted [''AAHED'', ''ZYMIC'']"
    by (simp add: less_eq_char_def less_char_def)
  show ?thesis
    using s isWord_iff_member [OF s, of _ "[''SPEED'', ''CRANE'']" "startGlobals ''SPEED'' [] []"]
    by simp
qed

section \<open>The session (claims C3 and C2)\<close>

lemma formatGuess_correct_total:
  assumes "\<forall>i\<in>set is. i < length gu \<and> i < length w"
  shows "\<exists>m'. formatGuess_correct gu w is m = Some m'"
  using assms by (induction "is" arbitrary: m) auto

lemma formatGuess_blanks_total:
  assumes "\<forall>i\<in>set is. i < length sl"
  shows "\<exists>sl'. formatGuess_blanks is first sl = Some sl'"
  using assms by (induction "is" arbitrary: first sl) auto

text \<open>
  With a word and a mask of full length and a guess no longer than a word, \<open>formatGuess\<close>
  does not panic; it keeps the word, the lists, the counter and the length of the mask,
  and without colours it keeps all globals.
\<close>

lemma formatGuess_ok:
  fixes g :: Globals
  assumes "length gu \<le> WordLength" "length (word g) = WordLength"
    "length (discovered g) = WordLength"
  shows "\<exists>sl g'. formatGuess gu clr g = Some (sl, g')
       \<and> word g' = word g \<and> wordList g' = wordList g \<and> allowedWords g' = allowedWords g
       \<and> currentGuess g' = currentGuess g \<and> length (discovered g') = WordLength
       \<and> (\<not> clr \<longrightarrow> g' = g)"
proof -
  have idx: "\<forall>i\<in>set (rangeIdx gu). i < length gu \<and> i < WordLength"
    using rangeIdx_bound [of _ gu] assms(1) by fastforce
  obtain m where one: "formatGuess_correct gu (word g) (rangeIdx gu) (mapString (word g)) = Some m"
    using formatGuess_correct_total [of "rangeIdx gu" gu "word g"] idx assms by auto
  let ?l0 = "\<lparr>counts = m, slots = replicate WordLength Empty, emoji = []\<rparr>"
  obtain l g1 where two: "formatGuess_slots gu clr (rangeIdx gu) (?l0, g) = Some (l, g1)"
    using formatGuess_slots_total [of "rangeIdx gu" gu g ?l0 clr] idx assms by auto
  note fr = formatGuess_slots_frame [OF two]
  have "\<forall>i\<in>set [length gu..<WordLength]. i < length (slots l)"
    using fr by simp
  then obtain sl where three: "formatGuess_blanks [length gu..<WordLength] True (slots l) = Some sl"
    using formatGuess_blanks_total by blast
  show ?thesis
    using one two three fr assms
    by (auto simp: formatGuess_def)
qed

lemma redraw_same:
  assumes "wellFormed s" "length (guess s) \<le> WordLength"
  shows "redraw fl s = Some (fl, s)"
proof -
  from formatGuess_ok [of "guess s" "glob s" False] assms
  obtain sl where "formatGuess (guess s) False (glob s) = Some (sl, glob s)"
    by (auto simp: wellFormed_def)
  then show ?thesis by (simp add: redraw_def)
qed

lemma enter_rejected:
  assumes "wellFormed s" "length (guess s) = WordLength"
    and "\<not> isWord (guess s) (glob s)
         \<or> (HardMode s \<and> hardModeEnforcement (guess s) (glob s) = Some False)"
  shows "enter s = Some (Continue, s)"
  using assms redraw_same [of s Continue]
  by (auto simp: enter_def)

lemma countGame_fields [simp]:
  "glob (countGame s) = glob s" "guess (countGame s) = guess s" "win (countGame s) = win s"
  "HardMode (countGame s) = HardMode s"
  by (simp_all add: countGame_def save_def)

lemma enter_accepted_cases:
  assumes wf: "wellFormed s" and len: "length (guess s) = WordLength"
  shows "\<exists>s'. enter_accepted s =
           Some (if guess s = word (glob s) \<or> Suc (currentGuess (glob s)) = TotalGuesses
                 then Break else Next, s')
       \<and> wellFormed s' \<and> word (glob s') = word (glob s) \<and> HardMode s' = HardMode s
       \<and> wordList (glob s') = wordList (glob s) \<and> allowedWords (glob s') = allowedWords (glob s)
       \<and> win s' = (win s \<or> guess s = word (glob s))
       \<and> currentGuess (glob s') =
           (if guess s = word (glob s) then currentGuess (glob s) else Suc (currentGuess (glob s)))"
proof -
  from formatGuess_ok [of "guess s" "glob s" True] wf len
  obtain sl g where f: "formatGuess (guess s) True (glob s) = Some (sl, g)"
    and g: "word g = word (glob s)" "wordList g = wordList (glob s)"
      "allowedWords g = allowedWords (glob s)" "currentGuess g = currentGuess (glob s)"
      "length (discovered g) = WordLength"
    by (auto simp: wellFormed_def)
  let ?s1 = "s\<lparr>glob := g\<rparr>"
  let ?s2 = "if currentGuess (glob ?s1) = 0 then countGame ?s1 else ?s1"
  have s2: "glob ?s2 = g" "guess ?s2 = guess s" "win ?s2 = win s" "HardMode ?s2 = HardMode s"
    by simp_all
  show ?thesis
  proof (cases "guess s = word (glob s)")
    case True
    then have "enter_accepted s = Some (Break, ?s2\<lparr>win := True\<rparr>)"
      using f g s2 by (simp add: enter_accepted_def Let_def)
    then show ?thesis
      using True g wf by (auto simp: wellFormed_def)
  next
    case False
    let ?s3 = "?s2\<lparr>glob := (glob ?s2)\<lparr>currentGuess := currentGuess (glob ?s2) + 1\<rparr>, guess := []\<rparr>"
    have s3: "wellFormed ?s3" "guess ?s3 = []" "word (glob ?s3) = word (glob s)"
      "currentGuess (glob ?s3) = Suc (currentGuess (glob s))" "win ?s3 = win s"
      "HardMode ?s3 = HardMode s" "wordList (glob ?s3) = wordList (glob s)"
      "allowedWords (glob ?s3) = allowedWords (glob s)"
      using g wf by (simp_all add: wellFormed_def)
    have r: "redraw Next ?s3 = Some (Next, ?s3)"
      by (rule redraw_same) (use s3 in simp_all)
    have "enter_accepted s =
        Some (if Suc (currentGuess (glob s)) = TotalGuesses then Break else Next, ?s3)"
      using f g False r unfolding enter_accepted_def Let_def by (simp split: if_splits)
    then show ?thesis
      using False s3 by auto
  qed
qed

lemma enter_accept:
  assumes "accepted (guess s) s"
  shows "enter s = enter_accepted s"
  using assms by (auto simp: enter_def accepted_def)

lemma submit_accepted:
  assumes "wellFormed s" "length w = WordLength" "accepted w s"
  shows "\<exists>s'. submit w s =
           Some (if w = word (glob s) \<or> Suc (currentGuess (glob s)) = TotalGuesses
                 then Break else Next, s')
       \<and> wellFormed s' \<and> word (glob s') = word (glob s) \<and> HardMode s' = HardMode s
       \<and> win s' = (win s \<or> w = word (glob s))
       \<and> currentGuess (glob s') =
           (if w = word (glob s) then currentGuess (glob s) else Suc (currentGuess (glob s)))"
proof -
  let ?s = "s\<lparr>guess := w\<rparr>"
  have "wellFormed ?s" "length (guess ?s) = WordLength" "accepted (guess ?s) ?s"
    using assms by (simp_all add: wellFormed_def accepted_def)
  from enter_accepted_cases [OF this(1,2)] enter_accept [OF this(3)]
  show ?thesis
    by (auto simp: submit_def)
qed




lemma int64_small: "small x \<Longrightarrow> int64 x = x"
  by (simp add: small_def int64_def)

lemma bitlen_le: "n < 2 ^ k \<Longrightarrow> bitlen n \<le> k"
proof (induction n arbitrary: k rule: bitlen.induct)
  case (1 n)
  show ?case
  proof (cases "n = 0")
    case True
    then show ?thesis by simp
  next
    case False
    then obtain k' where k: "k = Suc k'"
      using "1.prems" by (cases k) auto
    have "n div 2 < 2 ^ k'"
      using "1.prems" k by auto
    from "1.IH" [OF False this] False k show ?thesis
      by (subst bitlen.simps) simp
  qed
qed

lemma float64_small: "small x \<Longrightarrow> float64 x = x"
proof -
  assume "small x"
  then have "nat \<bar>x\<bar> < 2 ^ 53"
    by (auto simp: small_def)
  then have "bitlen (nat \<bar>x\<bar>) \<le> 53"
    by (rule bitlen_le)
  then show ?thesis
    by (simp add: float64_def Let_def)
qed

lemma int_of_float64_small: "small x \<Longrightarrow> int_of_float64 x = x"
  by (simp add: small_def int_of_float64_def)

lemma small_max: "small a \<Longrightarrow> small b \<Longrightarrow> small (max a b)"
  by (simp add: max_def)

lemma finish_won:
  assumes w: "win s"
    and i: "currentGuess (glob s) < length (activeWins s)"
    and sm: "small (activeWins s ! currentGuess (glob s) + 1)"
      "small (Streak (gamestats s) + 1)" "small (BestStreak (gamestats s))"
  shows "\<exists>s'. finish s = Some s'
       \<and> activeWins s' = (activeWins s)[currentGuess (glob s) := activeWins s ! currentGuess (glob s) + 1]
       \<and> otherWins s' = otherWins s
       \<and> Streak (gamestats s') = Streak (gamestats s) + 1
       \<and> BestStreak (gamestats s') = max (BestStreak (gamestats s)) (Streak (gamestats s) + 1)"
proof -
  have m: "int_of_float64 (max (float64 (BestStreak (gamestats s))) (float64 (int64 (Streak (gamestats s) + 1))))
      = max (BestStreak (gamestats s)) (Streak (gamestats s) + 1)"
    using sm by (simp add: int64_small float64_small int_of_float64_small small_max)
  show ?thesis
  proof (cases "HardMode s")
    case True
    with w i sm m show ?thesis
      by (simp add: finish_def bump_def activeWins_def otherWins_def save_def int64_small Let_def)
  next
    case False
    with w i sm m show ?thesis
      by (simp add: finish_def bump_def activeWins_def otherWins_def save_def int64_small Let_def)
  qed
qed

lemma formatGuess_frame:
  assumes "formatGuess gu clr g = Some (sl, g')"
  shows "currentGuess g' = currentGuess g \<and> word g' = word g
       \<and> wordList g' = wordList g \<and> allowedWords g' = allowedWords g"
proof -
  from assms obtain m l g1 where
    run: "formatGuess_slots gu clr (rangeIdx gu)
            (\<lparr>counts = m, slots = replicate WordLength Empty, emoji = []\<rparr>, g) = Some (l, g1)"
    and g': "g' = (if clr then g1\<lparr>emojiStack := emojiStack g1 @ [emoji l]\<rparr> else g1)"
    by (auto simp: formatGuess_def split: option.splits)
  from formatGuess_slots_frame [OF run] show ?thesis
    by (simp add: g')
qed

lemma redraw_frame:
  assumes "redraw fl s = Some (fl', s')"
  shows "fl' = fl \<and> currentGuess (glob s') = currentGuess (glob s) \<and> win s' = win s
       \<and> gamestats s' = gamestats s \<and> HardMode s' = HardMode s
       \<and> wordList (glob s') = wordList (glob s) \<and> allowedWords (glob s') = allowedWords (glob s)"
  using assms formatGuess_frame [of "guess s" False "glob s"]
  by (auto simp: redraw_def split: option.splits)



lemma enter_Next:
  assumes "enter s = Some (Next, s')"
  shows "currentGuess (glob s') = Suc (currentGuess (glob s)) \<and> win s' = win s"
proof -
  have acc: "enter_accepted s = Some (Next, s')"
    using assms redraw_frame [of Continue s Next s']
    by (auto simp: enter_def split: if_splits option.splits)
  then obtain sl g where f: "formatGuess (guess s) True (glob s) = Some (sl, g)"
    by (auto simp: enter_accepted_def split: option.splits)
  let ?s1 = "s\<lparr>glob := g\<rparr>"
  let ?s2 = "if currentGuess (glob ?s1) = 0 then countGame ?s1 else ?s1"
  let ?s3 = "?s2\<lparr>glob := (glob ?s2)\<lparr>currentGuess := currentGuess (glob ?s2) + 1\<rparr>, guess := []\<rparr>"
  have r: "redraw Next ?s3 = Some (Next, s')"
    using acc f unfolding enter_accepted_def Let_def
    by (simp split: if_splits)
  have "currentGuess (glob ?s3) = Suc (currentGuess (glob s))" "win ?s3 = win s"
    using formatGuess_frame [OF f] by simp_all
  with redraw_frame [OF r] show ?thesis by simp
qed






lemma exampleSession_facts:
  "wellFormed exampleSession" "currentGuess (glob exampleSession) = 0" "\<not> win exampleSession"
  "\<not> HardMode exampleSession" "word (glob exampleSession) = ''SPEED''"
  "isWord ''CRANE'' (glob exampleSession)" "isWord ''SPEED'' (glob exampleSession)"
proof -
  let ?g = "glob exampleSession"
  show "wellFormed exampleSession" "currentGuess ?g = 0" "\<not> win exampleSession"
    "\<not> HardMode exampleSession" "word ?g = ''SPEED''"
    by (simp_all add: exampleSession_def wellFormed_def sortWordList_def parseWordLists_def
        startGlobals_def WordLength_def)
  have s: "sorted (wordList ?g)" "sorted (allowedWords ?g)"
    by (simp_all add: exampleSession_def sortWordList_def parseWordLists_def startGlobals_def
        less_eq_char_def less_char_def)
  have m: "set (wordList ?g) = {''SPEED'', ''CRANE''}"
    by (auto simp: exampleSession_def sortWordList_def parseWordLists_def startGlobals_def)
  show "isWord ''CRANE'' ?g" "isWord ''SPEED'' ?g"
    using isWord_mem [OF s] m by simp_all
qed



text \<open>
  Claim C2. In the latest version a rejected guess leaves the session as it was
  (\<open>enter_rejected\<close> above). In main.go it does not: \<open>formatGuess\<close> is called without
  colours to redraw the line, and its first loop marks as discovered every position where
  the rejected guess agrees with the word. With the word SPEED and nothing discovered,
  the string SPXXX is not a word, is rejected, and leaves positions 0 and 1 discovered;
  in hard mode the word CRANE, submitted next, is then refused for not holding S and P
  there.
\<close>

theorem enter_main_go_rejected_changes_discovered:
  "\<not> isWord_main_go (wordList_mg mainGoSession) (guess_mg mainGoSession)
   \<and> enter_main_go mainGoSession
       = Some (Next, mainGoSession\<lparr>discovered_mg := [True, True, False, False, False]\<rparr>)
   \<and> isWord_main_go (wordList_mg mainGoSession) ''CRANE''
   \<and> enter_main_go (mainGoSession\<lparr>discovered_mg := [True, True, False, False, False],
                                     guess_mg := ''CRANE''\<rparr>)
       = Some (Continue, mainGoSession\<lparr>discovered_mg := [True, True, False, False, False],
                                        guess_mg := ''CRANE''\<rparr>)"
  by code_simp

section \<open>Statistics (claims C5 and C9)\<close>

text \<open>
  Claim C5. After a win, with the winning attempt inside the histogram of the mode
  played and the counters small enough for \<open>int\<close> and \<open>float64\<close> to hold them
  exactly, that histogram is incremented at the winning attempt and the other one is
  left alone, the streak grows by exactly 1, and the best streak becomes the maximum of
  the best streak and the new streak, so it does not decrease. After a loss the streak is
  0. An interrupt in a session that is not won and has an accepted guess behind it
  (\<open>currentGuess\<close> is not 0, as it is after any accepted guess that was not the word)
  sets the streak to 0 as well.
\<close>

theorem finish_streaks:
  "(win s \<and> currentGuess (glob s) < length (activeWins s)
      \<and> small (activeWins s ! currentGuess (glob s) + 1)
      \<and> small (Streak (gamestats s) + 1) \<and> small (BestStreak (gamestats s)) \<longrightarrow>
       (\<exists>s'. finish s = Some s'
         \<and> activeWins s' = (activeWins s)[currentGuess (glob s) := activeWins s ! currentGuess (glob s) + 1]
         \<and> otherWins s' = otherWins s
         \<and> Streak (gamestats s') = Streak (gamestats s) + 1
         \<and> BestStreak (gamestats s') = max (BestStreak (gamestats s)) (Streak (gamestats s) + 1)
         \<and> BestStreak (gamestats s) \<le> BestStreak (gamestats s')))
   \<and> (\<not> win s \<longrightarrow> (\<exists>s'. finish s = Some s' \<and> Streak (gamestats s') = 0))
   \<and> (\<not> win s \<and> currentGuess (glob s) \<noteq> 0 \<longrightarrow> Streak (gamestats (interrupt s)) = 0)
   \<and> (\<forall>s0 w. \<not> win s0 \<and> submit w s0 = Some (Next, s) \<longrightarrow> Streak (gamestats (interrupt s)) = 0)"
proof -
  have won: "win s \<and> currentGuess (glob s) < length (activeWins s)
      \<and> small (activeWins s ! currentGuess (glob s) + 1)
      \<and> small (Streak (gamestats s) + 1) \<and> small (BestStreak (gamestats s)) \<longrightarrow>
       (\<exists>s'. finish s = Some s'
         \<and> activeWins s' = (activeWins s)[currentGuess (glob s) := activeWins s ! currentGuess (glob s) + 1]
         \<and> otherWins s' = otherWins s
         \<and> Streak (gamestats s') = Streak (gamestats s) + 1
         \<and> BestStreak (gamestats s') = max (BestStreak (gamestats s)) (Streak (gamestats s) + 1)
         \<and> BestStreak (gamestats s) \<le> BestStreak (gamestats s'))"
  proof
    assume a: "win s \<and> currentGuess (glob s) < length (activeWins s)
      \<and> small (activeWins s ! currentGuess (glob s) + 1)
      \<and> small (Streak (gamestats s) + 1) \<and> small (BestStreak (gamestats s))"
    then have "win s" "currentGuess (glob s) < length (activeWins s)"
      "small (activeWins s ! currentGuess (glob s) + 1)"
      "small (Streak (gamestats s) + 1)" "small (BestStreak (gamestats s))"
      by simp_all
    from finish_won [OF this] show "\<exists>s'. finish s = Some s'
         \<and> activeWins s' = (activeWins s)[currentGuess (glob s) := activeWins s ! currentGuess (glob s) + 1]
         \<and> otherWins s' = otherWins s
         \<and> Streak (gamestats s') = Streak (gamestats s) + 1
         \<and> BestStreak (gamestats s') = max (BestStreak (gamestats s)) (Streak (gamestats s) + 1)
         \<and> BestStreak (gamestats s) \<le> BestStreak (gamestats s')"
      by auto
  qed
  have lost: "\<not> win s \<longrightarrow> (\<exists>s'. finish s = Some s' \<and> Streak (gamestats s') = 0)"
    by (simp add: finish_def save_def)
  have cancel: "\<not> win s \<and> currentGuess (glob s) \<noteq> 0 \<longrightarrow> Streak (gamestats (interrupt s)) = 0"
    by (simp add: interrupt_def save_def)
  have after: "\<forall>s0 w. \<not> win s0 \<and> submit w s0 = Some (Next, s) \<longrightarrow> Streak (gamestats (interrupt s)) = 0"
  proof (intro allI impI)
    fix s0 w
    assume a: "\<not> win s0 \<and> submit w s0 = Some (Next, s)"
    then have "enter (s0\<lparr>guess := w\<rparr>) = Some (Next, s)"
      by (simp add: submit_def)
    from enter_Next [OF this] a have "\<not> win s" "currentGuess (glob s) \<noteq> 0"
      by simp_all
    then show "Streak (gamestats (interrupt s)) = 0"
      by (simp add: interrupt_def save_def)
  qed
  from won lost cancel after show ?thesis by blast
qed

theorem finish_streaks_witness:
  "win wonSession \<and> currentGuess (glob wonSession) < length (activeWins wonSession)
   \<and> small (activeWins wonSession ! currentGuess (glob wonSession) + 1)
   \<and> small (Streak (gamestats wonSession) + 1) \<and> small (BestStreak (gamestats wonSession))
   \<and> (\<exists>s'. finish wonSession = Some s' \<and> activeWins s' = [1, 0, 0, 0, 0, 0]
         \<and> Streak (gamestats s') = 3 \<and> BestStreak (gamestats s') = 5)
   \<and> \<not> win exampleSession
   \<and> (\<exists>s'. finish exampleSession = Some s' \<and> Streak (gamestats s') = 0)
   \<and> (\<exists>s1. submit ''CRANE'' exampleSession = Some (Next, s1)
         \<and> currentGuess (glob s1) \<noteq> 0 \<and> Streak (gamestats (interrupt s1)) = 0)"
proof -
  note f = exampleSession_facts
  have w: "win wonSession" "currentGuess (glob wonSession) = 0"
    "activeWins wonSession = [0, 0, 0, 0, 0, 0]"
    "Streak (gamestats wonSession) = 2" "BestStreak (gamestats wonSession) = 5"
    by (simp_all add: wonSession_def exampleSession_def activeWins_def newGameStats_def
        TotalGuesses_def sortWordList_def parseWordLists_def startGlobals_def eval_nat_numeral)
  have h: "win wonSession \<and> currentGuess (glob wonSession) < length (activeWins wonSession)
   \<and> small (activeWins wonSession ! currentGuess (glob wonSession) + 1)
   \<and> small (Streak (gamestats wonSession) + 1) \<and> small (BestStreak (gamestats wonSession))"
    by (simp add: w small_def)
  from finish_streaks [of wonSession] h obtain sw where
    sw: "finish wonSession = Some sw"
      "activeWins sw = (activeWins wonSession)[currentGuess (glob wonSession) :=
         activeWins wonSession ! currentGuess (glob wonSession) + 1]"
      "Streak (gamestats sw) = Streak (gamestats wonSession) + 1"
      "BestStreak (gamestats sw) = max (BestStreak (gamestats wonSession)) (Streak (gamestats wonSession) + 1)"
    by blast
  have won: "\<exists>s'. finish wonSession = Some s' \<and> activeWins s' = [1, 0, 0, 0, 0, 0]
         \<and> Streak (gamestats s') = 3 \<and> BestStreak (gamestats s') = 5"
    using sw by (simp add: w)
  from finish_streaks [of exampleSession] f(3)
  have lost: "\<exists>s'. finish exampleSession = Some s' \<and> Streak (gamestats s') = 0"
    by blast
  have acc: "accepted ''CRANE'' exampleSession"
    by (simp add: accepted_def f)
  from submit_accepted [OF f(1) _ acc] obtain s1 where
    s1: "submit ''CRANE'' exampleSession = Some (Next, s1)"
      "currentGuess (glob s1) = Suc (currentGuess (glob exampleSession))"
    by (auto simp: f WordLength_def TotalGuesses_def)
  from finish_streaks [of s1] f(3) s1(1)
  have "Streak (gamestats (interrupt s1)) = 0"
    by blast
  with s1 have cancel: "\<exists>s1. submit ''CRANE'' exampleSession = Some (Next, s1)
         \<and> currentGuess (glob s1) \<noteq> 0 \<and> Streak (gamestats (interrupt s1)) = 0"
    by auto
  from h won f(3) lost cancel show ?thesis
    by blast
qed


text \<open>
  What \<open>loadGameStats\<close> returns, case by case. It has no step that can panic. With no
  home directory or no readable file it returns the fresh record and leaves the files
  alone. When the decoder reports an error it deletes the file and returns the record
  the decoder was given, as the decoder left it.
\<close>

lemma loadGameStats_cases:
  "(homeDir env = None \<longrightarrow> loadGameStats join decode env = (Some newGameStats, env))
   \<and> (\<forall>home. homeDir env = Some home \<and> files env (join home ''.wordle'') = None \<longrightarrow>
         loadGameStats join decode env = (Some newGameStats, env))
   \<and> (\<forall>home raw r. homeDir env = Some home \<and> files env (join home ''.wordle'') = Some raw
         \<and> decode raw (Some newGameStats) = (r, True) \<longrightarrow>
         loadGameStats join decode env
           = (r, env\<lparr>files := (files env)(join home ''.wordle'' := None)\<rparr>))
   \<and> (\<forall>home raw r. homeDir env = Some home \<and> files env (join home ''.wordle'') = Some raw
         \<and> decode raw (Some newGameStats) = (r, False) \<longrightarrow>
         loadGameStats join decode env = (r, env))"
  by (simp add: loadGameStats_def Let_def)

lemma newGameStats_zero:
  "TotalGames newGameStats = 0 \<and> TotalHardGames newGameStats = 0
   \<and> Wins newGameStats = replicate TotalGuesses 0 \<and> HardWins newGameStats = replicate TotalGuesses 0
   \<and> Streak newGameStats = 0 \<and> BestStreak newGameStats = 0 \<and> LastDaily newGameStats = None"
  by (simp add: newGameStats_def)

text \<open>
  Claim C9. Loading is to return the zero-valued default whenever the record fails to
  parse. The code returns \<open>gamestats\<close>, the record it set up as the default, after the
  decoder has been handed a pointer to it. On the file
  \<^verbatim>\<open>{"streak":7,"total_games":"x"}\<close> decoding fails, the file is deleted, and the
  record returned has a streak of 7, not 0.
\<close>

theorem loadGameStats_keeps_decoded_fields:
  "files (exampleEnv (Some mismatchRecord)) (exampleJoin ''/home/player'' ''.wordle'')
     = Some mismatchRecord
   \<and> snd (mismatchDecoder mismatchRecord (Some newGameStats))
   \<and> loadGameStats exampleJoin mismatchDecoder (exampleEnv (Some mismatchRecord))
       = (Some (newGameStats\<lparr>Streak := 7\<rparr>), exampleEnv None)
   \<and> Streak (newGameStats\<lparr>Streak := 7\<rparr>) = 7 \<and> Streak newGameStats = 0"
proof -
  let ?p = "exampleJoin ''/home/player'' ''.wordle''"
  let ?env = "exampleEnv (Some mismatchRecord)"
  have p: "?p = ''/home/player/.wordle''"
    by (simp add: exampleJoin_def)
  have e: "homeDir ?env = Some ''/home/player''" "files ?env ?p = Some mismatchRecord"
    by (simp_all add: exampleEnv_def p)
  have rm: "?env\<lparr>files := (files ?env)(?p := None)\<rparr> = exampleEnv None"
    by (auto simp: exampleEnv_def p fun_eq_iff)
  have d: "mismatchDecoder mismatchRecord (Some newGameStats)
           = (Some (newGameStats\<lparr>Streak := 7\<rparr>), True)"
    by (simp add: mismatchDecoder_def)
  have "loadGameStats exampleJoin mismatchDecoder ?env
        = (Some (newGameStats\<lparr>Streak := 7\<rparr>), ?env\<lparr>files := (files ?env)(?p := None)\<rparr>)"
    using loadGameStats_cases [of ?env exampleJoin mismatchDecoder] e d by blast
  with e d rm show ?thesis
    by (simp add: newGameStats_def)
qed

section \<open>The daily word (claim C7)\<close>

text \<open>The bit length of a numeral, one halving at a time.\<close>

lemma bitlen_numeral:
  "bitlen (numeral n) = (if (numeral n :: nat) = 0 then 0 else Suc (bitlen (numeral n div 2)))"
  "bitlen 0 = 0" "bitlen 1 = 1" "bitlen (Suc 0) = 1"
  by (subst bitlen.simps, simp)+

text \<open>
  Noon: 47988 hours and no nanoseconds since the anchor; every operation is exact, the
  quotient by 24 is 1999.5 and the day offset 1999.
\<close>

lemma Since_noon: "Since noon_2026_12_09 anchor = 172756800000000000"
  by (simp add: Since_def anchor_def noon_2026_12_09_def)

lemma quot_noon: "quot 172756800000000000 Hour = 47988" "rem 172756800000000000 Hour = 0"
  by (simp_all add: quot_def rem_def Hour_def)

lemma ilog2_47988: "ilog2 47988 = 15"
  by (simp add: ilog2_def bitlen_numeral del: bitlen.simps)

lemma fl64_47988: "fl64 47988 = 47988"
  by (simp add: fl64_def ilog2_47988 pow2_def roundHalfEven_def Let_def)

lemma Hours_noon: "Hours 172756800000000000 = 47988"
  by (simp add: Hours_def quot_noon float64_small small_def fl64_47988 Let_def fl64_def [of 0])

lemma ilog2_noon: "ilog2 (3999 / 2) = 10"
  by (simp add: ilog2_def bitlen_numeral del: bitlen.simps)

lemma fl64_noon: "fl64 (3999 / 2) = 3999 / 2"
  by (simp add: fl64_def ilog2_noon pow2_def roundHalfEven_def Let_def)

lemma dayOffsetAt_noon: "dayOffsetAt noon_2026_12_09 = 1999"
  by (simp add: dayOffsetAt_def Since_noon Hours_noon fl64_noon int_of_float_def int_of_float64_def)

text \<open>
  The last nanosecond: 47999 hours and 3599999999999 nanoseconds. The fraction of an
  hour rounds to \<open>1 - 2502 / 2 ^ 53\<close>; the sum with 47999 lies less than half a unit
  in the last place (\<open>2 ^ - 38\<close>) below 48000 and rounds to 48000; the quotient by 24 is
  2000.
\<close>

lemma Since_last: "Since last_2026_12_09 anchor = 172799999999999999"
  by (simp add: Since_def anchor_def last_2026_12_09_def)

lemma quot_last:
  "quot 172799999999999999 Hour = 47999" "rem 172799999999999999 Hour = 3599999999999"
  by (simp_all add: quot_def rem_def Hour_def)

lemma ilog2_fraction: "ilog2 (3599999999999 / 3600000000000) = - 1"
  by (simp add: ilog2_def bitlen_numeral del: bitlen.simps)

lemma fl64_fraction:
  "fl64 (3599999999999 / 3600000000000) = 9007199254738490 / 9007199254740992"
  by (simp add: fl64_def ilog2_fraction pow2_def roundHalfEven_def Let_def)

lemma ilog2_sum: "ilog2 (216172782113783806749 / 4503599627370496) = 15"
  by (simp add: ilog2_def bitlen_numeral del: bitlen.simps)

lemma fl64_sum: "fl64 (216172782113783806749 / 4503599627370496) = 48000"
  by (simp add: fl64_def ilog2_sum pow2_def roundHalfEven_def Let_def)

lemma Hours_last: "Hours 172799999999999999 = 48000"
  by (simp add: Hours_def quot_last float64_small small_def fl64_fraction fl64_sum Let_def)

lemma ilog2_2000: "ilog2 2000 = 10"
  by (simp add: ilog2_def bitlen_numeral del: bitlen.simps)

lemma fl64_2000: "fl64 2000 = 2000"
  by (simp add: fl64_def ilog2_2000 pow2_def roundHalfEven_def Let_def)

lemma dayOffsetAt_last: "dayOffsetAt last_2026_12_09 = 2000"
  by (simp add: dayOffsetAt_def Since_last Hours_last fl64_2000 int_of_float_def int_of_float64_def)

text \<open>
  Claim C7. The word of the day is to be the same for any two selections on one calendar
  day, at any time of day, the index being the whole days since the anchor modulo the
  length of the list. The program divides in \<^verbatim>\<open>float64\<close>. At noon of 9 December 2026
  UTC, 1999 days after the anchor, the day offset is 1999; in the last nanosecond of the
  same day the hours since the anchor round up to 48000 and the day offset is 2000, the
  next day's. On a list of three words the two readings select different words.
\<close>

theorem pickDaily_differs_within_a_day:
  "utcDay noon_2026_12_09 = utcDay last_2026_12_09
   \<and> utcDay noon_2026_12_09 - utcDay anchor = 1999
   \<and> dayOffsetAt noon_2026_12_09 = 1999
   \<and> dayOffsetAt last_2026_12_09 = 2000
   \<and> pickDaily [''CRANE'', ''SPEED'', ''ERASE''] noon_2026_12_09 = Some ''SPEED''
   \<and> pickDaily [''CRANE'', ''SPEED'', ''ERASE''] last_2026_12_09 = Some ''ERASE''"
proof -
  have days: "utcDay noon_2026_12_09 = 20796" "utcDay last_2026_12_09 = 20796"
    "utcDay anchor = 18797"
    by (simp_all add: utcDay_def noon_2026_12_09_def last_2026_12_09_def anchor_def)
  have words:
    "pickDaily [''CRANE'', ''SPEED'', ''ERASE''] noon_2026_12_09 = Some ''SPEED''"
    "pickDaily [''CRANE'', ''SPEED'', ''ERASE''] last_2026_12_09 = Some ''ERASE''"
    by (simp_all add: pickDaily_def dailyWord_def dayOffsetAt_noon dayOffsetAt_last rem_def
        quot_def)
  show ?thesis
    by (simp only: days words dayOffsetAt_noon dayOffsetAt_last) simp
qed

end
